theory Spec2Isabelle
  imports Complex_Main "HOL-Library.Word" "HOL-Library.Log_Nat"
begin

unbundle bit_operations_syntax

section \<open>Build configuration\<close>

text \<open>
  The tunables of \<^verbatim>\<open>clevo-fancontrol.c\<close> are \<^verbatim>\<open>#ifndef\<close> macros. The integer and
  boolean ones are fields of a record, so that the history window can be studied at any
  capacity. The order in which a C compiler evaluates the arguments of one call is
  unspecified; the two calls of \<^verbatim>\<open>main\<close> whose arguments read the embedded controller
  take that order from the record as well.
\<close>

record config =
  RATE :: nat
  TEMP_HISTORY_DURATION :: nat
  PRINT_STATE :: bool
  gpu_temp_first :: bool
  fan_duty_first :: bool

definition TEMP_HISTORY_LEN :: "config \<Rightarrow> nat" where
  "TEMP_HISTORY_LEN cfg = RATE cfg * TEMP_HISTORY_DURATION cfg"

definition default_config :: config where
  "default_config =
     \<lparr>RATE = 5, TEMP_HISTORY_DURATION = 5, PRINT_STATE = True,
      gpu_temp_first = False, fan_duty_first = False\<rparr>"

section \<open>Single-precision arithmetic\<close>

text \<open>
  A C \<^verbatim>\<open>float\<close> is an IEEE 754 binary32 number: a finite value is a rational with a
  24-bit significand. Every operation computes the exact rational result and rounds it to
  the nearest such number, ties to the even significand (the default rounding mode, each
  operation rounded on its own, as with SSE arithmetic on x86-64). \<open>rne\<close> rounds a rational
  to the nearest integer, ties to even; \<open>expo r\<close> is the binary exponent of \<open>r\<close>, that is
  \<open>\<lfloor>log\<^sub>2 \<bar>r\<bar>\<rfloor>\<close>; \<open>fl\<close> rounds to a multiple of the unit in the last place of that
  binade, with the subnormal spacing below \<open>2 powi - 126\<close>. Overflow to infinity is left
  out: every value the program computes has a magnitude below \<open>2 ^ 32\<close>.
\<close>

definition rne :: "rat \<Rightarrow> int" where
  "rne q = (let f = \<lfloor>q\<rfloor>; d = q - of_int f
            in if d < 1 / 2 then f else if 1 / 2 < d then f + 1
               else if even f then f else f + 1)"

definition expo :: "rat \<Rightarrow> int" where
  "expo r = (let a = \<bar>r\<bar>
             in if 1 \<le> a then int (floorlog 2 (nat \<lfloor>a\<rfloor>)) - 1
                else - int (floorlog 2 (nat (\<lceil>1 / a\<rceil> - 1))))"

definition fl :: "rat \<Rightarrow> rat" where
  "fl r = (if r = 0 then 0
           else let e = max (expo r) (- 126) - 23
                in of_int (rne (r / 2 powi e)) * 2 powi e)"

definition fadd :: "rat \<Rightarrow> rat \<Rightarrow> rat" where
  "fadd a b = fl (a + b)"

definition fsub :: "rat \<Rightarrow> rat \<Rightarrow> rat" where
  "fsub a b = fl (a - b)"

definition fmul :: "rat \<Rightarrow> rat \<Rightarrow> rat" where
  "fmul a b = fl (a * b)"

definition fdiv :: "rat \<Rightarrow> rat \<Rightarrow> rat" where
  "fdiv a b = fl (a / b)"

text \<open>The conversions \<^verbatim>\<open>(float) n\<close> and \<^verbatim>\<open>(int) r\<close>; the second truncates toward zero.\<close>

definition float_of_int :: "int \<Rightarrow> rat" where
  "float_of_int n = fl (of_int n)"

definition int_of_float :: "rat \<Rightarrow> int" where
  "int_of_float r = (if 0 \<le> r then \<lfloor>r\<rfloor> else \<lceil>r\<rceil>)"

section \<open>The duty curve\<close>

text \<open>The literals \<^verbatim>\<open>10.0f\<close>, \<^verbatim>\<open>40.0f\<close>, \<^verbatim>\<open>100.0f\<close> and \<^verbatim>\<open>70.0f\<close> at their defaults.\<close>

definition MIN_DUTY :: rat where
  "MIN_DUTY = fl 10"

definition MIN_DUTY_TEMP :: rat where
  "MIN_DUTY_TEMP = fl 40"

definition MAX_DUTY :: rat where
  "MAX_DUTY = fl 100"

definition MAX_DUTY_TEMP :: rat where
  "MAX_DUTY_TEMP = fl 70"

text \<open>
  \<^verbatim>\<open>temp_to_duty\<close>: the assignments to \<^verbatim>\<open>x\<close> are successive bindings, the \<^verbatim>\<open>1\<close> of
  \<^verbatim>\<open>1 + linear_component\<close> is converted to \<^verbatim>\<open>float\<close>, and the returned \<^verbatim>\<open>float\<close> is
  converted to \<^verbatim>\<open>int\<close>. The parameter ranges over all integers; the values of the C
  type \<^verbatim>\<open>int\<close> are the 32-bit ones among them, and no conversion overflows on those.
\<close>

definition temp_to_duty :: "int \<Rightarrow> int" where
  "temp_to_duty temp =
     (let x = fdiv (fsub (float_of_int temp) MIN_DUTY_TEMP) (fsub MAX_DUTY_TEMP MIN_DUTY_TEMP);
          x = (if x < 0 then 0 else x);
          x = (if 1 < x then 1 else x);
          linear_component = fl (2 / 10);
          y = fdiv (fmul x (fadd x linear_component)) (fadd (float_of_int 1) linear_component)
      in int_of_float (fadd (fmul y (fsub MAX_DUTY MIN_DUTY)) MIN_DUTY))"

text \<open>
  The two halves of \<^verbatim>\<open>temp_to_duty\<close> under names of their own, for the proofs: the
  clamped scaling of the temperature and the curve applied to the scaled value.
\<close>

definition temp_scale :: "int \<Rightarrow> rat" where
  "temp_scale temp =
     (let x = fdiv (fsub (float_of_int temp) MIN_DUTY_TEMP) (fsub MAX_DUTY_TEMP MIN_DUTY_TEMP);
          x = (if x < 0 then 0 else x)
      in if 1 < x then 1 else x)"

definition duty_curve :: "rat \<Rightarrow> int" where
  "duty_curve x =
     (let linear_component = fl (2 / 10);
          y = fdiv (fmul x (fadd x linear_component)) (fadd (float_of_int 1) linear_component)
      in int_of_float (fadd (fmul y (fsub MAX_DUTY MIN_DUTY)) MIN_DUTY))"

section \<open>The embedded controller behind two I/O ports\<close>

text \<open>
  The program talks to the controller with \<^verbatim>\<open>inb\<close> and \<^verbatim>\<open>outb\<close> only. The hardware is
  an oracle: \<open>port_in w k\<close> is the byte that the \<open>k\<close>-th \<^verbatim>\<open>inb\<close> of the run returns, and
  \<open>n_in w\<close> counts the reads done so far. Every port access, sleep and printed line is
  appended to \<open>trace w\<close>, in program order.
\<close>

datatype event =
    Inb "16 word" "8 word"
  | Outb "8 word" "16 word"
  | Usleep nat
  | Print_wait_ec_error "32 word" "8 word" "32 word" "8 word"
  | Print_state int int int int int

record world =
  port_in :: "nat \<Rightarrow> 8 word"
  n_in :: nat
  trace :: "event list"

definition inb :: "16 word \<Rightarrow> world \<Rightarrow> 8 word \<times> world" where
  "inb port w =
     (let v = port_in w (n_in w)
      in (v, w\<lparr>n_in := n_in w + 1, trace := trace w @ [Inb port v]\<rparr>))"

definition outb :: "8 word \<Rightarrow> 16 word \<Rightarrow> world \<Rightarrow> world" where
  "outb v port w = w\<lparr>trace := trace w @ [Outb v port]\<rparr>"

definition usleep :: "nat \<Rightarrow> world \<Rightarrow> world" where
  "usleep us w = w\<lparr>trace := trace w @ [Usleep us]\<rparr>"

definition printf :: "event \<Rightarrow> world \<Rightarrow> world" where
  "printf line w = w\<lparr>trace := trace w @ [line]\<rparr>"

definition EC_SC :: "32 word" where
  "EC_SC = 0x66"

definition EC_DATA :: "32 word" where
  "EC_DATA = 0x62"

definition IBF :: "32 word" where
  "IBF = 1"

definition OBF :: "32 word" where
  "OBF = 0"

definition EC_SC_READ_CMD :: "32 word" where
  "EC_SC_READ_CMD = 0x80"

definition EC_REG_CPU_TEMP :: "32 word" where
  "EC_REG_CPU_TEMP = 0x07"

definition EC_REG_GPU_TEMP :: "32 word" where
  "EC_REG_GPU_TEMP = 0xCD"

definition EC_REG_FAN_DUTY :: "32 word" where
  "EC_REG_FAN_DUTY = 0xCE"

definition EC_REG_FAN_RPMS_HI :: "32 word" where
  "EC_REG_FAN_RPMS_HI = 0xD0"

definition EC_REG_FAN_RPMS_LO :: "32 word" where
  "EC_REG_FAN_RPMS_LO = 0xD1"

text \<open>
  \<^verbatim>\<open>(data >> flag) & 0x1\<close>, computed on \<^verbatim>\<open>int\<close> after the integer promotion of
  \<^verbatim>\<open>data\<close>. The \<^verbatim>\<open>char\<close> it is compared with is read as a signed byte; the program passes
  0 and 1 only.
\<close>

definition flag_bit :: "8 word \<Rightarrow> 32 word \<Rightarrow> int" where
  "flag_bit data flag = drop_bit (unat flag) (uint data) AND 1"

text \<open>
  The \<^verbatim>\<open>while\<close> loop of \<^verbatim>\<open>ec_io_wait\<close>, from the state \<^verbatim>\<open>(data, i)\<close>. The condition
  \<^verbatim>\<open>... && (i++ < 100)\<close> increments \<^verbatim>\<open>i\<close> whenever its left operand holds, also when the
  comparison then fails; the loop returns the last \<^verbatim>\<open>data\<close> and the final \<^verbatim>\<open>i\<close>.
\<close>

function ec_io_wait_loop ::
  "32 word \<Rightarrow> 32 word \<Rightarrow> 8 word \<Rightarrow> 8 word \<Rightarrow> int \<Rightarrow> world \<Rightarrow> 8 word \<times> int \<times> world" where
  "ec_io_wait_loop port flag val data i w =
     (if flag_bit data flag \<noteq> sint val then
        (if i < 100 then
           (let w1 = usleep 1000 w;
                r = inb (ucast port) w1
            in ec_io_wait_loop port flag val (fst r) (i + 1) (snd r))
         else (data, i + 1, w))
      else (data, i, w))"
  by pat_completeness auto
termination
  by (relation "measure (\<lambda>(port, flag, val, data, i, w). nat (100 - i))") auto

definition ec_io_wait :: "32 word \<Rightarrow> 32 word \<Rightarrow> 8 word \<Rightarrow> world \<Rightarrow> world" where
  "ec_io_wait port flag val w =
     (let (data, w1) = inb (ucast port) w;
          (data, i, w2) = ec_io_wait_loop port flag val data 0 w1
      in if 100 \<le> i then printf (Print_wait_ec_error port data flag val) w2 else w2)"

definition ec_io_read :: "32 word \<Rightarrow> world \<Rightarrow> 8 word \<times> world" where
  "ec_io_read port w =
     (let w1 = ec_io_wait EC_SC IBF 0 w;
          w2 = outb (ucast EC_SC_READ_CMD) (ucast EC_SC) w1;
          w3 = ec_io_wait EC_SC IBF 0 w2;
          w4 = outb (ucast port) (ucast EC_DATA) w3;
          w5 = ec_io_wait EC_SC OBF 1 w4
      in inb (ucast EC_DATA) w5)"

definition ec_io_do :: "32 word \<Rightarrow> 32 word \<Rightarrow> 8 word \<Rightarrow> world \<Rightarrow> world" where
  "ec_io_do cmd port val w =
     (let w1 = ec_io_wait EC_SC IBF 0 w;
          w2 = outb (ucast cmd) (ucast EC_SC) w1;
          w3 = ec_io_wait EC_SC IBF 0 w2;
          w4 = outb (ucast port) (ucast EC_DATA) w3;
          w5 = ec_io_wait EC_SC IBF 0 w4;
          w6 = outb val (ucast EC_DATA) w5
      in ec_io_wait EC_SC IBF 0 w6)"

section \<open>Register queries and the duty write\<close>

datatype error = NoEcAccess | IndexOutOfRange | DivisionByZero

definition ec_query_cpu_temp :: "world \<Rightarrow> int \<times> world" where
  "ec_query_cpu_temp w = (let (v, w1) = ec_io_read EC_REG_CPU_TEMP w in (uint v, w1))"

definition ec_query_gpu_temp :: "world \<Rightarrow> int \<times> world" where
  "ec_query_gpu_temp w = (let (v, w1) = ec_io_read EC_REG_GPU_TEMP w in (uint v, w1))"

definition ec_query_fan_duty :: "world \<Rightarrow> int \<times> world" where
  "ec_query_fan_duty w =
     (let (v, w1) = ec_io_read EC_REG_FAN_DUTY w;
          raw_duty = uint v
      in (int_of_float (fmul (fdiv (float_of_int raw_duty) (fl 255)) (fl 100)), w1))"

text \<open>
  Integer division in C traps on a zero divisor and truncates toward zero otherwise (the
  overflow of \<^verbatim>\<open>INT_MIN / -1\<close> cannot arise: the only dividend is 2156220).
  \<open>fan_rpms\<close> is the arithmetic of \<^verbatim>\<open>ec_query_fan_rpms\<close> on the two bytes it has read.
\<close>

definition c_div :: "int \<Rightarrow> int \<Rightarrow> error + int" where
  "c_div a b = (if b = 0 then Inl DivisionByZero else Inr (sgn a * sgn b * (\<bar>a\<bar> div \<bar>b\<bar>)))"

definition fan_rpms :: "int \<Rightarrow> int \<Rightarrow> error + int" where
  "fan_rpms raw_rpm_hi raw_rpm_lo =
     (let raw_rpm = push_bit 8 raw_rpm_hi + raw_rpm_lo
      in if 0 < raw_rpm then c_div 2156220 raw_rpm else Inr 0)"

definition ec_query_fan_rpms :: "world \<Rightarrow> error + int \<times> world" where
  "ec_query_fan_rpms w =
     (let (hi, w1) = ec_io_read EC_REG_FAN_RPMS_HI w;
          raw_rpm_hi = uint hi;
          (lo, w2) = ec_io_read EC_REG_FAN_RPMS_LO w1;
          raw_rpm_lo = uint lo
      in case fan_rpms raw_rpm_hi raw_rpm_lo of
           Inl e \<Rightarrow> Inl e
         | Inr rpm \<Rightarrow> Inr (rpm, w2))"

text \<open>
  \<^verbatim>\<open>ec_write_fan_duty\<close>: \<open>sanitize\<close> is its two clamping statements, \<open>duty_raw\<close> the
  conversion of the percentage to the transmitted value \<^verbatim>\<open>v_i\<close>, which the call of
  \<^verbatim>\<open>ec_io_do\<close> narrows to a byte.
\<close>

definition sanitize :: "int \<Rightarrow> int" where
  "sanitize duty_percentage =
     (let d = (if duty_percentage < 10 then 10 else duty_percentage)
      in if 100 < d then 100 else d)"

definition duty_raw :: "int \<Rightarrow> int" where
  "duty_raw duty_percentage =
     int_of_float (fmul (fdiv (float_of_int duty_percentage) (fl 100)) (fl 255))"

definition ec_write_fan_duty :: "int \<Rightarrow> world \<Rightarrow> world" where
  "ec_write_fan_duty duty_percentage w =
     (let d = sanitize duty_percentage;
          v_i = duty_raw d
      in ec_io_do 0x99 0x01 (word_of_int v_i) w)"

section \<open>The control loop\<close>

text \<open>
  The state of \<^verbatim>\<open>main\<close>: the history array with its write cursor, the last duty written,
  and the hardware. The cursor is never negative.
\<close>

record state =
  temp_history :: "int list"
  temp_history_pos :: nat
  prev_duty :: int
  hw :: world

definition max_int :: "int \<Rightarrow> int \<Rightarrow> int" where
  "max_int a b = (if a > b then a else b)"

text \<open>
  Logging a sample (the two statements after \<^verbatim>\<open>// log the temperature into the history\<close>)
  and the scan for the highest temperature in the history, which starts from 0.
\<close>

definition push :: "config \<Rightarrow> int \<Rightarrow> state \<Rightarrow> state" where
  "push cfg temp_cur s =
     s\<lparr>temp_history := (temp_history s)[temp_history_pos s := temp_cur],
       temp_history_pos := (temp_history_pos s + 1) mod TEMP_HISTORY_LEN cfg\<rparr>"

definition windowedMax :: "state \<Rightarrow> int" where
  "windowedMax s = foldl max_int 0 (temp_history s)"

text \<open>
  The array has \<^verbatim>\<open>TEMP_HISTORY_LEN\<close> slots and the cursor stays inside it; a store outside
  the array is an error of the model.
\<close>

definition state_ok :: "config \<Rightarrow> state \<Rightarrow> bool" where
  "state_ok cfg s \<longleftrightarrow>
     length (temp_history s) = TEMP_HISTORY_LEN cfg \<and> temp_history_pos s < TEMP_HISTORY_LEN cfg"

definition sample_temp :: "config \<Rightarrow> world \<Rightarrow> int \<times> world" where
  "sample_temp cfg w =
     (if gpu_temp_first cfg then
        (let (g, w1) = ec_query_gpu_temp w;
             (c, w2) = ec_query_cpu_temp w1
         in (max_int c g, w2))
      else
        (let (c, w1) = ec_query_cpu_temp w;
             (g, w2) = ec_query_gpu_temp w1
         in (max_int c g, w2)))"

definition print_line :: "config \<Rightarrow> int \<Rightarrow> int \<Rightarrow> int \<Rightarrow> world \<Rightarrow> error + world" where
  "print_line cfg temp_cur temp_max new_duty w =
     (if fan_duty_first cfg then
        (let (fan_duty, w1) = ec_query_fan_duty w
         in case ec_query_fan_rpms w1 of
              Inl e \<Rightarrow> Inl e
            | Inr (rpm, w2) \<Rightarrow>
                Inr (printf (Print_state temp_cur temp_max rpm fan_duty new_duty) w2))
      else
        (case ec_query_fan_rpms w of
           Inl e \<Rightarrow> Inl e
         | Inr (rpm, w1) \<Rightarrow>
             (let (fan_duty, w2) = ec_query_fan_duty w1
              in Inr (printf (Print_state temp_cur temp_max rpm fan_duty new_duty) w2))))"

text \<open>
  One pass through the body of \<^verbatim>\<open>while (1)\<close>, in three parts: everything up to the
  diagnostic line, which yields \<^verbatim>\<open>new_duty\<close>; the conditional write; the sleep.
\<close>

definition cycle_compute :: "config \<Rightarrow> state \<Rightarrow> error + int \<times> state" where
  "cycle_compute cfg s =
     (let (temp_cur, w1) = sample_temp cfg (hw s)
      in if temp_history_pos s < length (temp_history s) then
           (let s1 = push cfg temp_cur (s\<lparr>hw := w1\<rparr>);
                temp_max = windowedMax s1;
                new_duty = temp_to_duty temp_max
            in if PRINT_STATE cfg then
                 (case print_line cfg temp_cur temp_max new_duty (hw s1) of
                    Inl e \<Rightarrow> Inl e
                  | Inr w2 \<Rightarrow> Inr (new_duty, s1\<lparr>hw := w2\<rparr>))
               else Inr (new_duty, s1))
         else Inl IndexOutOfRange)"

definition write_duty :: "int \<Rightarrow> state \<Rightarrow> state" where
  "write_duty new_duty s =
     (if new_duty \<noteq> prev_duty s then
        s\<lparr>hw := ec_write_fan_duty new_duty (hw s), prev_duty := new_duty\<rparr>
      else s)"

definition cycle :: "config \<Rightarrow> state \<Rightarrow> error + state" where
  "cycle cfg s =
     (case cycle_compute cfg s of
        Inl e \<Rightarrow> Inl e
      | Inr (new_duty, s1) \<Rightarrow>
          (let s2 = write_duty new_duty s1
           in Inr (s2\<lparr>hw := usleep (1000 * 1000 div RATE cfg) (hw s2)\<rparr>)))"

text \<open>
  \<^verbatim>\<open>main\<close> up to the loop: the history is cleared, the two \<^verbatim>\<open>ioperm\<close> calls must
  succeed (whether they do is a parameter each; when one fails \<^verbatim>\<open>main\<close> prints a message
  and returns 1, the error \<open>NoEcAccess\<close>), and \<^verbatim>\<open>prev_duty\<close> starts at \<open>- 1\<close>. The loop
  itself never returns; \<open>main_loop n\<close> is the state after \<open>n\<close> passes.
\<close>

definition main_init :: "config \<Rightarrow> bool \<Rightarrow> bool \<Rightarrow> world \<Rightarrow> error + state" where
  "main_init cfg ioperm_data ioperm_sc w =
     (if \<not> ioperm_data \<or> \<not> ioperm_sc then Inl NoEcAccess
      else Inr \<lparr>temp_history = replicate (TEMP_HISTORY_LEN cfg) 0, temp_history_pos = 0,
                prev_duty = - 1, hw = w\<rparr>)"

fun main_loop :: "config \<Rightarrow> nat \<Rightarrow> state \<Rightarrow> error + state" where
  "main_loop cfg 0 s = Inr s"
| "main_loop cfg (Suc n) s =
     (case cycle cfg s of Inl e \<Rightarrow> Inl e | Inr s1 \<Rightarrow> main_loop cfg n s1)"

text \<open>
  A duty write is a call of \<^verbatim>\<open>ec_write_fan_duty\<close>: the only place where the command byte
  \<open>0x99\<close> goes to the command port. \<open>duty_writes\<close> counts these in a trace.
\<close>

definition duty_writes :: "event list \<Rightarrow> nat" where
  "duty_writes tr = length (filter (\<lambda>e. e = Outb 0x99 0x66) tr)"

text \<open>\<open>outbs\<close> keeps the bytes sent to the controller, in order.\<close>

fun is_outb :: "event \<Rightarrow> bool" where
  "is_outb (Outb v port) = True"
| "is_outb e = False"

definition outbs :: "event list \<Rightarrow> event list" where
  "outbs tr = filter is_outb tr"

section \<open>Runs of the program\<close>

text \<open>
  \<open>run cfg n w\<close> is the state of \<^verbatim>\<open>main\<close> after \<open>n\<close> passes on the hardware \<open>w\<close>, both
  \<^verbatim>\<open>ioperm\<close> calls having succeeded; \<open>run_writes\<close> is the number of duty writes made
  by then, and \<open>run_duty\<close> the duty that the next pass computes. Two pieces of hardware
  to run on: \<open>cool_hw\<close> answers every read with the byte 1, so that every handshake
  succeeds at once and every temperature is 1; \<open>stuck_hw\<close> never sets a status bit and
  holds the data byte 55 at the read that follows the timed-out wait of the first
  register read.
\<close>

definition run :: "config \<Rightarrow> nat \<Rightarrow> world \<Rightarrow> error + state" where
  "run cfg n w =
     (case main_init cfg True True w of Inl e \<Rightarrow> Inl e | Inr s0 \<Rightarrow> main_loop cfg n s0)"

definition run_writes :: "config \<Rightarrow> nat \<Rightarrow> world \<Rightarrow> nat option" where
  "run_writes cfg n w =
     (case run cfg n w of Inl e \<Rightarrow> None | Inr s \<Rightarrow> Some (duty_writes (trace (hw s))))"

definition run_duty :: "config \<Rightarrow> nat \<Rightarrow> world \<Rightarrow> int option" where
  "run_duty cfg n w =
     (case run cfg n w of
        Inl e \<Rightarrow> None
      | Inr s \<Rightarrow> (case cycle_compute cfg s of Inl e \<Rightarrow> None | Inr (d, a) \<Rightarrow> Some d))"

definition cool_hw :: world where
  "cool_hw = \<lparr>port_in = (\<lambda>k. 1), n_in = 0, trace = []\<rparr>"

definition stuck_hw :: world where
  "stuck_hw = \<lparr>port_in = (\<lambda>k. if k = 103 then 55 else 0), n_in = 0, trace = []\<rparr>"

section \<open>The trace of a wait that times out\<close>

text \<open>
  What a wait is expected to leave in the trace when its flag never takes the awaited
  value: the first read of the status port, then 100 attempts, each a sleep of 1 ms
  followed by a read, then the warning with the byte read last.
\<close>

definition poll_attempt :: "16 word \<Rightarrow> world \<Rightarrow> nat \<Rightarrow> event list" where
  "poll_attempt port w k = [Usleep 1000, Inb port (port_in w (n_in w + k))]"

definition timed_out_wait :: "32 word \<Rightarrow> 32 word \<Rightarrow> 8 word \<Rightarrow> world \<Rightarrow> event list" where
  "timed_out_wait port flag val w =
     Inb (ucast port) (port_in w (n_in w))
       # concat (map (poll_attempt (ucast port) w) [1..<101])
       @ [Print_wait_ec_error port (port_in w (n_in w + 100)) flag val]"

section \<open>Facts about rounding\<close>

lemma rne_of_int: "rne (of_int n) = n"
  by (simp add: rne_def)

lemma rne_cases: "rne q = \<lfloor>q\<rfloor> \<or> rne q = \<lfloor>q\<rfloor> + 1"
  by (simp add: rne_def Let_def)

lemma rne_mono:
  assumes "q \<le> q'"
  shows "rne q \<le> rne q'"
proof (cases "\<lfloor>q\<rfloor> = \<lfloor>q'\<rfloor>")
  case True
  then show ?thesis using assms by (simp add: rne_def Let_def)
next
  case False
  then have "\<lfloor>q\<rfloor> + 1 \<le> \<lfloor>q'\<rfloor>" using floor_mono [OF assms] by linarith
  moreover have "rne q \<le> \<lfloor>q\<rfloor> + 1" using rne_cases [of q] by linarith
  moreover have "\<lfloor>q'\<rfloor> \<le> rne q'" using rne_cases [of q'] by linarith
  ultimately show ?thesis by linarith
qed

lemma rne_minus: "rne (- q) = - rne q"
proof (cases "q \<in> \<int>")
  case True
  then obtain n where "q = of_int n" by (auto elim: Ints_cases)
  then have "- q = of_int (- n)" by simp
  then show ?thesis using rne_of_int \<open>q = of_int n\<close> by metis
next
  case False
  define f where "f = \<lfloor>q\<rfloor>"
  define d where "d = q - of_int f"
  have ne: "of_int f \<noteq> q" using False unfolding f_def by (metis Ints_of_int)
  have d0: "0 < d" "d < 1" using ne unfolding d_def f_def by linarith+
  have fm: "\<lfloor>- q\<rfloor> = - f - 1" unfolding f_def using ne [unfolded f_def] by linarith
  have dm: "- q - of_int (- f - 1) = 1 - d" by (simp add: d_def)
  have ev: "even (- f - 1) \<longleftrightarrow> odd f" by simp
  have "rne (- q) = (if 1 - d < 1/2 then - f - 1 else if 1/2 < 1 - d then - f
                     else if odd f then - f - 1 else - f)"
    unfolding rne_def Let_def fm dm ev by simp
  moreover have "rne q = (if d < 1/2 then f else if 1/2 < d then f + 1
                     else if even f then f else f + 1)"
    unfolding rne_def Let_def f_def [symmetric] d_def [symmetric] by simp
  ultimately show ?thesis by auto
qed

text \<open>\<open>expo r\<close> is the exponent of the binade that holds \<open>r\<close>.\<close>

lemma nat_pow2_le_rat:
  assumes "2 ^ k \<le> (n::nat)"
  shows "(2::rat) ^ k \<le> rat_of_nat n"
  using assms by (metis of_nat_le_iff of_nat_numeral of_nat_power)

lemma nat_less_pow2_rat:
  assumes "(n::nat) < 2 ^ k"
  shows "rat_of_nat n + 1 \<le> 2 ^ k"
proof -
  have "n + 1 \<le> 2 ^ k" using assms by simp
  then have "rat_of_nat (n + 1) \<le> rat_of_nat (2 ^ k)" by (simp only: of_nat_le_iff)
  then show ?thesis by simp
qed

lemma expo_bounds:
  assumes "r \<noteq> 0"
  shows "2 powi expo r \<le> \<bar>r\<bar>" and "\<bar>r\<bar> < 2 powi (expo r + 1)"
proof -
  define a where "a = \<bar>r\<bar>"
  have a0: "0 < a" using assms by (simp add: a_def)
  have "2 powi expo r \<le> a \<and> a < 2 powi (expo r + 1)"
  proof (cases "1 \<le> a")
    case True
    define n where "n = nat \<lfloor>a\<rfloor>"
    define L where "L = floorlog 2 n"
    have n1: "0 < n" using True by (simp add: n_def)
    have b: "2 ^ (L - 1) \<le> n" "n < 2 ^ L"
      using floorlog_bounds [OF n1, of 2] by (simp_all add: L_def)
    have L1: "1 \<le> L" using n1 by (simp add: L_def floorlog_def)
    have e: "expo r = int L - 1"
      using True by (simp add: expo_def a_def [symmetric] Let_def n_def L_def)
    have na: "rat_of_nat n \<le> a" "a < rat_of_nat n + 1"
      using a0 by (simp_all add: n_def of_nat_nat) linarith+
    have "(2::rat) powi (int L - 1) = 2 ^ (L - 1)"
      using L1 by (simp add: power_int_def nat_diff_distrib' of_nat_diff)
    moreover have "(2::rat) powi (int L - 1 + 1) = 2 ^ L"
      by simp
    moreover note nat_pow2_le_rat [OF b(1)] nat_less_pow2_rat [OF b(2)]
    ultimately have "2 powi expo r \<le> rat_of_nat n" "rat_of_nat n + 1 \<le> 2 powi (expo r + 1)"
      unfolding e by simp_all
    then show ?thesis using na by linarith
  next
    case False
    define s where "s = 1 / a"
    have s1: "1 < s" using False a0 by (simp add: s_def)
    define m where "m = nat (\<lceil>s\<rceil> - 1)"
    define L where "L = floorlog 2 m"
    have c2: "2 \<le> \<lceil>s\<rceil>" using s1 by linarith
    have m1: "0 < m" using c2 by (simp add: m_def)
    have b: "2 ^ (L - 1) \<le> m" "m < 2 ^ L"
      using floorlog_bounds [OF m1, of 2] by (simp_all add: L_def)
    have e: "expo r = - int L"
      using False by (simp add: expo_def a_def [symmetric] Let_def m_def L_def s_def)
    have ms: "rat_of_nat m < s" "s \<le> rat_of_nat m + 1"
      using c2 by (simp_all add: m_def of_nat_nat) linarith+
    have L1: "1 \<le> L" using m1 by (simp add: L_def floorlog_def)
    have lo: "s \<le> 2 ^ L" using ms nat_less_pow2_rat [OF b(2)] by linarith
    have hi: "(2::rat) ^ (L - 1) < s" using ms nat_pow2_le_rat [OF b(1)] by linarith
    have as: "a = 1 / s" using a0 by (simp add: s_def)
    have "(2::rat) powi (- int L) = 1 / 2 ^ L"
      by (simp add: power_int_minus field_simps)
    moreover have "(2::rat) powi (- int L + 1) = 1 / 2 ^ (L - 1)"
    proof -
      have "- int L + 1 = - int (L - 1)" using L1 by simp
      then show ?thesis by (simp only: power_int_minus power_int_of_nat) (simp add: field_simps)
    qed
    moreover have "1 / 2 ^ L \<le> 1 / s" using lo s1 by (simp add: frac_le)
    moreover have "1 / s < 1 / 2 ^ (L - 1)" using hi by (simp add: frac_less2)
    ultimately have "2 powi expo r \<le> 1 / s" "1 / s < 2 powi (expo r + 1)"
      unfolding e by simp_all
    then show ?thesis unfolding as by simp
  qed
  then show "2 powi expo r \<le> \<bar>r\<bar>" and "\<bar>r\<bar> < 2 powi (expo r + 1)"
    by (simp_all add: a_def)
qed

lemma expo_minus: "expo (- r) = expo r"
  by (simp add: expo_def)

lemma expo_mono:
  assumes "r \<noteq> 0" and "\<bar>r\<bar> \<le> \<bar>s\<bar>"
  shows "expo r \<le> expo s"
proof (rule ccontr)
  assume "\<not> expo r \<le> expo s"
  then have "expo s + 1 \<le> expo r" by simp
  then have "(2::rat) powi (expo s + 1) \<le> 2 powi expo r"
    by (intro power_int_increasing) simp_all
  moreover have "s \<noteq> 0" using assms by auto
  ultimately show False
    using expo_bounds(1) [OF assms(1)] expo_bounds(2) [OF \<open>s \<noteq> 0\<close>] assms(2) by linarith
qed

text \<open>Known binary32 values: the literals \<^verbatim>\<open>0.2f\<close>, \<^verbatim>\<open>0.1f\<close> and \<^verbatim>\<open>1.2f\<close>.\<close>

lemma fl_known_values:
  "fl (2 / 10) = 13421773 / 67108864 \<and> fl (1 / 10) = 13421773 / 134217728 \<and>
   fl (12 / 10) = 5033165 / 4194304"
  by code_simp

text \<open>Rounding keeps zero and the sign, commutes with negation, and is monotone.\<close>

lemma fl_zero: "fl 0 = 0"
  by (simp add: fl_def)

lemma fl_minus: "fl (- r) = - fl r"
  by (simp add: fl_def expo_minus rne_minus Let_def)

lemma pow2_pos: "0 < (2::rat) powi e"
  by (simp add: zero_less_power_int)

lemma fl_nonneg:
  assumes "0 \<le> r"
  shows "0 \<le> fl r"
proof (cases "r = 0")
  case True
  then show ?thesis by (simp add: fl_zero)
next
  case False
  define e where "e = max (expo r) (- 126) - 23"
  have "0 \<le> r / 2 powi e" using assms pow2_pos [of e] by simp
  then have "rne 0 \<le> rne (r / 2 powi e)" by (rule rne_mono)
  then have "0 \<le> rne (r / 2 powi e)" using rne_of_int [of 0] by simp
  then have "0 \<le> rat_of_int (rne (r / 2 powi e)) * 2 powi e"
    using pow2_pos [of e] by simp
  then show ?thesis using False by (simp add: fl_def Let_def e_def)
qed

lemma pow2_of_int:
  assumes "0 \<le> k"
  shows "(2::rat) powi k = of_int (2 ^ nat k)"
  using assms by (simp add: power_int_def)

lemma fl_mono_pos:
  assumes "0 < r" and "r \<le> s"
  shows "fl r \<le> fl s"
proof -
  define er where "er = max (expo r) (- 126) - 23"
  define es where "es = max (expo s) (- 126) - 23"
  have r0: "r \<noteq> 0" and s0: "s \<noteq> 0" and sp: "0 < s" using assms by auto
  have flr: "fl r = of_int (rne (r / 2 powi er)) * 2 powi er"
    using r0 by (simp add: fl_def Let_def er_def)
  have fls: "fl s = of_int (rne (s / 2 powi es)) * 2 powi es"
    using s0 by (simp add: fl_def Let_def es_def)
  have "expo r \<le> expo s" using expo_mono [OF r0, of s] assms by simp
  then have le: "er \<le> es" by (simp add: er_def es_def)
  show ?thesis
  proof (cases "er = es")
    case True
    have "r / 2 powi es \<le> s / 2 powi es"
      using assms(2) pow2_pos [of es] by (simp add: divide_right_mono)
    then have "rne (r / 2 powi es) \<le> rne (s / 2 powi es)" by (rule rne_mono)
    then have "rat_of_int (rne (r / 2 powi es)) \<le> rat_of_int (rne (s / 2 powi es))"
      by simp
    then show ?thesis
      unfolding flr fls True using pow2_pos [of es] by (simp add: mult_right_mono)
  next
    case False
    define E where "E = expo s"
    have lt: "er < es" using le False by simp
    then have Es: "es = E - 23" and rE: "expo r + 1 \<le> E" and erE: "er \<le> E"
      by (auto simp: er_def es_def E_def max_def split: if_splits)
    have "(2::rat) powi (23 + (E - 23)) = 2 powi 23 * 2 powi (E - 23)"
      by (rule power_int_add) simp
    then have split_s: "(2::rat) powi E = 2 powi 23 * 2 powi es"
      unfolding Es by simp
    have "(2::rat) powi ((E - er) + er) = 2 powi (E - er) * 2 powi er"
      by (rule power_int_add) simp
    then have split_r: "(2::rat) powi E = 2 powi (E - er) * 2 powi er"
      by simp
    have lo: "2 powi E \<le> fl s"
    proof -
      have "2 powi E \<le> s" using expo_bounds(1) [OF s0] sp by (simp add: E_def)
      then have "2 powi 23 * 2 powi es \<le> s" by (simp only: split_s)
      then have "2 powi 23 \<le> s / 2 powi es"
        using pow2_pos [of es] by (simp add: pos_le_divide_eq)
      then have "rat_of_int (2 ^ 23) \<le> s / 2 powi es" by simp
      then have "rne (rat_of_int (2 ^ 23)) \<le> rne (s / 2 powi es)" by (rule rne_mono)
      then have "2 ^ 23 \<le> rne (s / 2 powi es)" by (simp only: rne_of_int)
      then have "rat_of_int (2 ^ 23) \<le> rat_of_int (rne (s / 2 powi es))"
        by (simp only: of_int_le_iff)
      then have "2 powi 23 * 2 powi es \<le> rat_of_int (rne (s / 2 powi es)) * 2 powi es"
        using pow2_pos [of es] by (simp add: mult_right_mono)
      then show ?thesis by (simp only: fls split_s)
    qed
    have hi: "fl r \<le> 2 powi E"
    proof -
      have "r < 2 powi (expo r + 1)" using expo_bounds(2) [OF r0] assms(1) by simp
      moreover have "(2::rat) powi (expo r + 1) \<le> 2 powi E"
        using rE by (intro power_int_increasing) simp_all
      ultimately have "r \<le> 2 powi (E - er) * 2 powi er" by (simp only: split_r [symmetric])
      then have "r / 2 powi er \<le> 2 powi (E - er)"
        using pow2_pos [of er] by (simp add: pos_divide_le_eq)
      then have "r / 2 powi er \<le> rat_of_int (2 ^ nat (E - er))"
        using pow2_of_int [of "E - er"] erE by simp
      then have "rne (r / 2 powi er) \<le> rne (rat_of_int (2 ^ nat (E - er)))" by (rule rne_mono)
      then have "rne (r / 2 powi er) \<le> 2 ^ nat (E - er)" by (simp only: rne_of_int)
      then have "rat_of_int (rne (r / 2 powi er)) \<le> rat_of_int (2 ^ nat (E - er))"
        by (simp only: of_int_le_iff)
      then have "rat_of_int (rne (r / 2 powi er)) \<le> 2 powi (E - er)"
        using pow2_of_int [of "E - er"] erE by simp
      then have "rat_of_int (rne (r / 2 powi er)) * 2 powi er \<le> 2 powi (E - er) * 2 powi er"
        using pow2_pos [of er] by (simp add: mult_right_mono)
      then show ?thesis by (simp only: flr split_r)
    qed
    from lo hi show ?thesis by linarith
  qed
qed

lemma fl_mono:
  assumes "r \<le> s"
  shows "fl r \<le> fl s"
proof -
  consider "0 < r" | "r \<le> 0" "0 \<le> s" | "s < 0" by linarith
  then show ?thesis
  proof cases
    case 1
    then show ?thesis using assms by (rule fl_mono_pos)
  next
    case 2
    have "0 \<le> fl (- r)" using 2(1) by (intro fl_nonneg) simp
    then have "fl r \<le> 0" by (simp add: fl_minus)
    moreover have "0 \<le> fl s" using 2(2) by (rule fl_nonneg)
    ultimately show ?thesis by linarith
  next
    case 3
    have "fl (- s) \<le> fl (- r)" using 3 assms by (intro fl_mono_pos) simp_all
    then show ?thesis by (simp add: fl_minus)
  qed
qed

section \<open>Representable values\<close>

lemma expo_unique:
  assumes "2 powi k \<le> \<bar>r\<bar>" and "\<bar>r\<bar> < 2 powi (k + 1)"
  shows "expo r = k"
proof -
  have "0 < \<bar>r\<bar>" using assms(1) pow2_pos [of k] by linarith
  then have r0: "r \<noteq> 0" by auto
  note b = expo_bounds [OF r0]
  have "\<not> expo r < k"
  proof
    assume "expo r < k"
    then have "(2::rat) powi (expo r + 1) \<le> 2 powi k"
      by (intro power_int_increasing) simp_all
    then show False using b(2) assms(1) by linarith
  qed
  moreover have "\<not> k < expo r"
  proof
    assume "k < expo r"
    then have "(2::rat) powi (k + 1) \<le> 2 powi expo r"
      by (intro power_int_increasing) simp_all
    then show False using b(1) assms(2) by linarith
  qed
  ultimately show ?thesis by linarith
qed

text \<open>A multiple \<open>m * 2 powi e\<close> with at most 24 bits in \<open>m\<close> and \<open>e\<close> in range is a fixed point.\<close>

lemma fl_exact:
  assumes "\<bar>m\<bar> \<le> 2 ^ 24" and "- 149 \<le> e"
  shows "fl (of_int m * 2 powi e) = of_int m * 2 powi e"
proof (cases "m = 0")
  case True
  then show ?thesis by (simp add: fl_zero)
next
  case False
  define r where "r = rat_of_int m * 2 powi e"
  have r0: "r \<noteq> 0" using False pow2_pos [of e] by (simp add: r_def)
  define E where "E = expo r"
  define u where "u = max E (- 126) - 23"
  have absr: "\<bar>r\<bar> = rat_of_int \<bar>m\<bar> * 2 powi e"
    using pow2_pos [of e] by (simp add: r_def abs_mult)
  have "\<bar>r\<bar> \<le> 2 ^ 24 * 2 powi e"
  proof -
    have "rat_of_int \<bar>m\<bar> \<le> rat_of_int (2 ^ 24)" using assms(1) by (simp only: of_int_le_iff)
    then show ?thesis unfolding absr using pow2_pos [of e] by (simp add: mult_right_mono)
  qed
  also have "(2::rat) ^ 24 * 2 powi e = 2 powi (24 + e)"
  proof -
    have "(2::rat) powi (24 + e) = 2 powi 24 * 2 powi e" by (rule power_int_add) simp
    then show ?thesis by simp
  qed
  finally have up: "\<bar>r\<bar> \<le> 2 powi (24 + e)" .
  have "2 powi E \<le> \<bar>r\<bar>" using expo_bounds(1) [OF r0] by (simp add: E_def)
  then have "(2::rat) powi E \<le> 2 powi (24 + e)" using up by linarith
  then have Ele: "E \<le> 24 + e"
    by (rule_tac ccontr) (use power_int_strict_increasing [of "24 + e" E "2::rat"] in auto)
  have ue: "u \<le> e \<or> (u = e + 1 \<and> E = 24 + e)"
    using Ele assms(2) by (auto simp: u_def max_def)
  have flr: "fl r = of_int (rne (r / 2 powi u)) * 2 powi u"
    using r0 by (simp add: fl_def Let_def u_def E_def)
  from ue show ?thesis
  proof
    assume le: "u \<le> e"
    have "(2::rat) powi ((e - u) + u) = 2 powi (e - u) * 2 powi u"
      by (rule power_int_add) simp
    then have sp: "(2::rat) powi e = 2 powi (e - u) * 2 powi u" by simp
    have "r / 2 powi u = rat_of_int m * 2 powi (e - u)"
      unfolding r_def using pow2_pos [of u] by (subst sp) simp
    also have "\<dots> = rat_of_int (m * 2 ^ nat (e - u))"
      using pow2_of_int [of "e - u"] le by simp
    finally have "rne (r / 2 powi u) = m * 2 ^ nat (e - u)" by (simp only: rne_of_int)
    then have "fl r = rat_of_int (m * 2 ^ nat (e - u)) * 2 powi u" by (simp only: flr)
    also have "\<dots> = rat_of_int m * (2 powi (e - u) * 2 powi u)"
      using pow2_of_int [of "e - u"] le by simp
    also have "\<dots> = r" by (simp only: sp [symmetric] r_def)
    finally show ?thesis by (simp add: r_def)
  next
    assume a: "u = e + 1 \<and> E = 24 + e"
    then have "2 powi (24 + e) \<le> \<bar>r\<bar>" using expo_bounds(1) [OF r0] by (simp add: E_def)
    then have "\<bar>r\<bar> = 2 powi (24 + e)" using up by linarith
    then have "rat_of_int \<bar>m\<bar> * 2 powi e = 2 ^ 24 * 2 powi e"
      using \<open>(2::rat) ^ 24 * 2 powi e = 2 powi (24 + e)\<close> absr by simp
    then have "rat_of_int \<bar>m\<bar> = 2 ^ 24" using pow2_pos [of e] by simp
    then have "rat_of_int \<bar>m\<bar> = rat_of_int (2 ^ 24)" by simp
    then have am: "\<bar>m\<bar> = 2 ^ 24" by (simp only: of_int_eq_iff)
    have "(2::rat) powi (e + 1) = 2 powi e * 2 powi 1" by (rule power_int_add) simp
    then have sp: "(2::rat) powi (e + 1) = 2 * 2 powi e" by simp
    have "r / 2 powi u = rat_of_int (m div 2)"
    proof -
      have "m = 2 ^ 24 \<or> m = - (2 ^ 24)" using am by linarith
      then show ?thesis using pow2_pos [of e] a by (auto simp: r_def sp)
    qed
    then have "rne (r / 2 powi u) = m div 2" by (simp only: rne_of_int)
    then have "fl r = rat_of_int (m div 2) * 2 powi u" by (simp only: flr)
    also have "\<dots> = r"
    proof -
      have "m = 2 ^ 24 \<or> m = - (2 ^ 24)" using am by linarith
      then show ?thesis using a by (auto simp: r_def sp)
    qed
    finally show ?thesis by (simp add: r_def)
  qed
qed

text \<open>In particular the conversion of an integer of at most 24 bits is exact.\<close>

lemma fl_of_int_exact:
  assumes "\<bar>n\<bar> \<le> 2 ^ 24"
  shows "fl (of_int n) = of_int n"
  using fl_exact [OF assms, of 0] by simp


lemma fl_significand:
  assumes "0 < r"
  shows "\<exists>m e. fl r = of_int m * 2 powi e \<and> \<bar>m\<bar> \<le> 2 ^ 24 \<and> - 149 \<le> e"
proof -
  have r0: "r \<noteq> 0" using assms by simp
  define E where "E = expo r"
  define u where "u = max E (- 126) - 23"
  define m where "m = rne (r / 2 powi u)"
  have flr: "fl r = of_int m * 2 powi u"
    using r0 by (simp add: fl_def Let_def u_def E_def m_def)
  have "r < 2 powi (E + 1)" using expo_bounds(2) [OF r0] assms by (simp add: E_def)
  moreover have "(2::rat) powi (E + 1) \<le> 2 powi (24 + u)"
    by (intro power_int_increasing) (simp_all add: u_def)
  moreover have "(2::rat) powi (24 + u) = 2 powi 24 * 2 powi u"
    by (rule power_int_add) simp
  ultimately have "r \<le> 2 ^ 24 * 2 powi u" by simp
  then have "r / 2 powi u \<le> rat_of_int (2 ^ 24)"
    using pow2_pos [of u] by (simp add: pos_divide_le_eq)
  then have "rne (r / 2 powi u) \<le> rne (rat_of_int (2 ^ 24))" by (rule rne_mono)
  then have hi: "m \<le> 2 ^ 24" by (simp only: rne_of_int m_def)
  have "rat_of_int 0 \<le> r / 2 powi u" using assms pow2_pos [of u] by simp
  then have "rne (rat_of_int 0) \<le> rne (r / 2 powi u)" by (rule rne_mono)
  then have lo: "0 \<le> m" by (simp only: rne_of_int m_def)
  have "- 149 \<le> u" by (simp add: u_def)
  then show ?thesis using flr lo hi by (intro exI [of _ m] exI [of _ u]) simp
qed

text \<open>Rounding is a projection: a rounded value is representable, and stays as it is.\<close>

lemma fl_idem_pos:
  assumes "0 < r"
  shows "fl (fl r) = fl r"
proof -
  obtain m e where "fl r = of_int m * 2 powi e" "\<bar>m\<bar> \<le> 2 ^ 24" "- 149 \<le> e"
    using fl_significand [OF assms] by blast
  then show ?thesis using fl_exact [of m e] by simp
qed

lemma fl_idem: "fl (fl r) = fl r"
proof -
  consider "0 < r" | "r = 0" | "r < 0" by linarith
  then show ?thesis
  proof cases
    case 1
    then show ?thesis by (rule fl_idem_pos)
  next
    case 2
    then show ?thesis by (simp add: fl_zero)
  next
    case 3
    then have "fl (fl (- r)) = fl (- r)" by (intro fl_idem_pos) simp
    then show ?thesis by (simp add: fl_minus)
  qed
qed

section \<open>The duty curve: values, bounds, monotonicity\<close>

lemma temp_to_duty_split: "temp_to_duty temp = duty_curve (temp_scale temp)"
  by (simp add: temp_to_duty_def duty_curve_def temp_scale_def Let_def)

lemma temp_range_val: "fsub MAX_DUTY_TEMP MIN_DUTY_TEMP = 30"
  by code_simp

lemma min_duty_temp_val: "MIN_DUTY_TEMP = 40"
  by code_simp

lemma fl_30: "fl 30 = 30" by code_simp
lemma fl_40: "fl 40 = 40" by code_simp
lemma fl_70: "fl 70 = 70" by code_simp
lemma fl_1: "fl 1 = 1" by code_simp

lemma temp_scale_unfold:
  "temp_scale temp =
     (let x = fl (fl (fl (of_int temp) - 40) / 30) in
      if x < 0 then 0 else if 1 < x then 1 else x)"
  unfolding temp_scale_def
  unfolding temp_range_val
  unfolding min_duty_temp_val
  by (simp add: fdiv_def fsub_def float_of_int_def Let_def)

lemma temp_scale_range: "0 \<le> temp_scale temp \<and> temp_scale temp \<le> 1"
  by (simp add: temp_scale_unfold Let_def)

lemma temp_scale_mono:
  assumes "t1 \<le> t2"
  shows "temp_scale t1 \<le> temp_scale t2"
proof -
  have "fl (of_int t1) \<le> fl (of_int t2)" using assms by (intro fl_mono) simp
  then have "fl (fl (of_int t1) - 40) \<le> fl (fl (of_int t2) - 40)" by (intro fl_mono) simp
  then have "fl (fl (fl (of_int t1) - 40) / 30) \<le> fl (fl (fl (of_int t2) - 40) / 30)"
    by (intro fl_mono) simp
  then show ?thesis by (simp add: temp_scale_unfold Let_def)
qed

lemma temp_scale_low:
  assumes "temp \<le> 40"
  shows "temp_scale temp = 0"
proof -
  have "fl (of_int temp) \<le> fl 40" using assms by (intro fl_mono) simp
  then have "fl (of_int temp) - 40 \<le> 0" by (simp add: fl_40)
  then have "fl (fl (of_int temp) - 40) \<le> fl 0" by (rule fl_mono)
  then have "fl (fl (of_int temp) - 40) / 30 \<le> 0" by (simp add: fl_zero)
  then have "fl (fl (fl (of_int temp) - 40) / 30) \<le> fl 0" by (rule fl_mono)
  then show ?thesis by (simp add: temp_scale_unfold Let_def fl_zero)
qed

lemma temp_scale_high:
  assumes "70 \<le> temp"
  shows "temp_scale temp = 1"
proof -
  have "fl 70 \<le> fl (of_int temp)" using assms by (intro fl_mono) simp
  then have "30 \<le> fl (of_int temp) - 40" by (simp add: fl_70)
  then have "fl 30 \<le> fl (fl (of_int temp) - 40)" by (rule fl_mono)
  then have "1 \<le> fl (fl (of_int temp) - 40) / 30" by (simp add: fl_30)
  then have "fl 1 \<le> fl (fl (fl (of_int temp) - 40) / 30)" by (rule fl_mono)
  then show ?thesis by (simp add: temp_scale_unfold Let_def fl_1)
qed

lemma int_of_float_mono:
  assumes "a \<le> b"
  shows "int_of_float a \<le> int_of_float b"
proof -
  have "\<lfloor>a\<rfloor> \<le> \<lfloor>b\<rfloor>" "\<lceil>a\<rceil> \<le> \<lceil>b\<rceil>" using assms by (simp_all add: floor_mono ceiling_mono)
  moreover have "b < 0 \<Longrightarrow> \<lceil>b\<rceil> \<le> 0" by linarith
  moreover have "0 \<le> b \<Longrightarrow> 0 \<le> \<lfloor>b\<rfloor>" by simp
  moreover have "a < 0 \<Longrightarrow> \<lceil>a\<rceil> \<le> 0" by linarith
  ultimately show ?thesis using assms unfolding int_of_float_def by (auto; linarith)
qed

lemma linear_component_nonneg: "0 \<le> fl (2 / 10)"
  by (rule fl_nonneg) simp

lemma one_plus_linear_pos: "0 < fadd (float_of_int 1) (fl (2 / 10))"
  by code_simp

lemma duty_range_nonneg: "0 \<le> fsub MAX_DUTY MIN_DUTY"
  by code_simp

lemma duty_curve_mono:
  assumes "0 \<le> x" and "x \<le> x'"
  shows "duty_curve x \<le> duty_curve x'"
proof -
  define k where "k = fl (2 / 10)"
  define c where "c = fadd (float_of_int 1) k"
  define g where "g = fsub MAX_DUTY MIN_DUTY"
  have k0: "0 \<le> k" unfolding k_def by (rule linear_component_nonneg)
  have c0: "0 < c" unfolding c_def k_def by (rule one_plus_linear_pos)
  have g0: "0 \<le> g" unfolding g_def by (rule duty_range_nonneg)
  have a: "fl (x + k) \<le> fl (x' + k)" using assms by (intro fl_mono) simp
  have a0: "0 \<le> fl (x + k)" using assms k0 by (intro fl_nonneg) simp
  have "x * fl (x + k) \<le> x' * fl (x' + k)" using assms a a0 by (intro mult_mono) simp_all
  then have "fl (x * fl (x + k)) \<le> fl (x' * fl (x' + k))" by (rule fl_mono)
  then have "fl (x * fl (x + k)) / c \<le> fl (x' * fl (x' + k)) / c"
    using c0 by (simp add: divide_right_mono)
  then have y: "fl (fl (x * fl (x + k)) / c) \<le> fl (fl (x' * fl (x' + k)) / c)" by (rule fl_mono)
  then have "fl (fl (x * fl (x + k)) / c) * g \<le> fl (fl (x' * fl (x' + k)) / c) * g"
    using g0 by (simp add: mult_right_mono)
  then have "fl (fl (fl (x * fl (x + k)) / c) * g) \<le> fl (fl (fl (x' * fl (x' + k)) / c) * g)"
    by (rule fl_mono)
  then have "fl (fl (fl (fl (x * fl (x + k)) / c) * g) + MIN_DUTY)
      \<le> fl (fl (fl (fl (x' * fl (x' + k)) / c) * g) + MIN_DUTY)"
    by (intro fl_mono) simp
  then have "int_of_float (fl (fl (fl (fl (x * fl (x + k)) / c) * g) + MIN_DUTY))
      \<le> int_of_float (fl (fl (fl (fl (x' * fl (x' + k)) / c) * g) + MIN_DUTY))"
    by (rule int_of_float_mono)
  then show ?thesis
    by (simp add: duty_curve_def Let_def fadd_def fmul_def fdiv_def k_def c_def g_def)
qed

lemma duty_curve_0: "duty_curve 0 = 10"
  by code_simp

lemma duty_curve_1: "duty_curve 1 = 100"
  by code_simp

lemma temp_to_duty_mono:
  assumes "t1 \<le> t2"
  shows "temp_to_duty t1 \<le> temp_to_duty t2"
  unfolding temp_to_duty_split
  using temp_scale_range [of t1] temp_scale_mono [OF assms] by (intro duty_curve_mono) simp_all

lemma temp_to_duty_range: "10 \<le> temp_to_duty temp \<and> temp_to_duty temp \<le> 100"
proof -
  have "duty_curve 0 \<le> duty_curve (temp_scale temp)"
    using temp_scale_range [of temp] by (intro duty_curve_mono) simp_all
  moreover have "duty_curve (temp_scale temp) \<le> duty_curve 1"
    using temp_scale_range [of temp] by (intro duty_curve_mono) simp_all
  ultimately show ?thesis by (simp add: temp_to_duty_split duty_curve_0 duty_curve_1)
qed

lemma duty_params:
  "MIN_DUTY_TEMP = 40 \<and> MAX_DUTY_TEMP = 70 \<and> MIN_DUTY = 10 \<and> MAX_DUTY = 100"
  by code_simp

text \<open>
  Claim C8. With the default parameters (minimum duty 10 at 40 degrees, maximum duty 100 at
  70 degrees, linear component 0.2) the duty computed for a temperature of 55 is exactly
  36: the scaled temperature \<^verbatim>\<open>x\<close> is 0.5, the curve value \<^verbatim>\<open>y\<close> is about 0.2917, the
  duty before the conversion to \<^verbatim>\<open>int\<close> is about 36.25, and the conversion truncates.
\<close>

theorem temp_to_duty_example:
  "temp_to_duty 55 = 36 \<and> temp_scale 55 = 1 / 2 \<and>
   (let linear_component = fl (2 / 10);
        y = fdiv (fmul (1 / 2) (fadd (1 / 2) linear_component))
              (fadd (float_of_int 1) linear_component);
        duty = fadd (fmul y (fsub MAX_DUTY MIN_DUTY)) MIN_DUTY
    in \<bar>y - 2917 / 10000\<bar> < 1 / 10000 \<and> \<bar>duty - 3625 / 100\<bar> < 1 / 1000 \<and>
       int_of_float duty = 36)"
  by code_simp

text \<open>
  Claim C2. For every integer temperature \<open>t\<close>, the duty is the minimum duty 10 whenever
  \<open>t\<close> is at most the minimum-duty temperature 40, and the maximum duty 100 whenever \<open>t\<close> is
  at least the maximum-duty temperature 70 (default parameters).
\<close>

theorem temp_to_duty_bounds:
  "MIN_DUTY_TEMP = 40 \<and> MAX_DUTY_TEMP = 70 \<and> MIN_DUTY = 10 \<and> MAX_DUTY = 100 \<and>
   (t \<le> 40 \<longrightarrow> temp_to_duty t = 10) \<and> (70 \<le> t \<longrightarrow> temp_to_duty t = 100)"
  by (simp add: duty_params temp_to_duty_split temp_scale_low temp_scale_high
      duty_curve_0 duty_curve_1)

theorem temp_to_duty_bounds_witness:
  "(- 5 :: int) \<le> 40 \<and> temp_to_duty (- 5) = 10 \<and> (40 :: int) \<le> 40 \<and> temp_to_duty 40 = 10 \<and>
   (70 :: int) \<le> 70 \<and> temp_to_duty 70 = 100 \<and> (70 :: int) \<le> 300 \<and> temp_to_duty 300 = 100"
  using temp_to_duty_bounds [of "- 5"] temp_to_duty_bounds [of 40]
    temp_to_duty_bounds [of 70] temp_to_duty_bounds [of 300]
  by simp

text \<open>
  Claim C3. The duty curve is monotonic non-decreasing over all integer temperatures: for
  \<open>t1 < t2\<close> the duty at \<open>t1\<close> is at most the duty at \<open>t2\<close>.
\<close>

theorem temp_to_duty_monotone:
  assumes "t1 < t2"
  shows "temp_to_duty t1 \<le> temp_to_duty t2"
  using assms by (intro temp_to_duty_mono) simp

theorem temp_to_duty_monotone_witness:
  "(41 :: int) < 55 \<and> temp_to_duty 41 \<le> temp_to_duty 55"
  using temp_to_duty_monotone [of 41 55] by simp

section \<open>Port accesses and the trace\<close>

text \<open>
  The loop of \<^verbatim>\<open>ec_io_wait\<close> is unfolded by hand from here on. The primitives change
  the oracle never, the read counter by one per \<^verbatim>\<open>inb\<close>, and the trace by one event.
\<close>

declare ec_io_wait_loop.simps [simp del]

lemma duty_writes_append: "duty_writes (xs @ ys) = duty_writes xs + duty_writes ys"
  by (simp add: duty_writes_def)

lemma duty_writes_simps:
  "duty_writes [] = 0"
  "duty_writes (e # tr) = (if e = Outb 0x99 0x66 then 1 else 0) + duty_writes tr"
  by (simp_all add: duty_writes_def)

lemma inb_frame:
  "port_in (snd (inb p w)) = port_in w"
  "n_in (snd (inb p w)) = n_in w + 1"
  "trace (snd (inb p w)) = trace w @ [Inb p (port_in w (n_in w))]"
  "fst (inb p w) = port_in w (n_in w)"
  by (simp_all add: inb_def Let_def)

lemma usleep_frame:
  "port_in (usleep n w) = port_in w"
  "n_in (usleep n w) = n_in w"
  "trace (usleep n w) = trace w @ [Usleep n]"
  by (simp_all add: usleep_def)

lemma outb_frame:
  "port_in (outb v p w) = port_in w"
  "n_in (outb v p w) = n_in w"
  "trace (outb v p w) = trace w @ [Outb v p]"
  by (simp_all add: outb_def)

lemma printf_frame:
  "port_in (printf e w) = port_in w"
  "n_in (printf e w) = n_in w"
  "trace (printf e w) = trace w @ [e]"
  by (simp_all add: printf_def)

lemma wait_loop_frame:
  "port_in (snd (snd (ec_io_wait_loop port flag val data i w))) = port_in w \<and>
   duty_writes (trace (snd (snd (ec_io_wait_loop port flag val data i w)))) = duty_writes (trace w)"
proof (induction port flag val data i w rule: ec_io_wait_loop.induct)
  case (1 port flag val data i w)
  show ?case
  proof (cases "flag_bit data flag \<noteq> sint val \<and> i < 100")
    case True
    then show ?thesis
      using "1.IH" [OF _ _ refl refl]
      by (subst (1 2) ec_io_wait_loop.simps)
        (simp add: Let_def inb_frame usleep_frame duty_writes_append duty_writes_simps)
  next
    case False
    then show ?thesis
      by (subst (1 2) ec_io_wait_loop.simps) auto
  qed
qed

lemma ec_io_wait_frame:
  "port_in (ec_io_wait port flag val w) = port_in w"
  "duty_writes (trace (ec_io_wait port flag val w)) = duty_writes (trace w)"
proof -
  define r where "r = ec_io_wait_loop port flag val (fst (inb (ucast port) w)) 0 (snd (inb (ucast port) w))"
  have e: "ec_io_wait port flag val w =
      (if 100 \<le> fst (snd r) then printf (Print_wait_ec_error port (fst r) flag val) (snd (snd r))
       else snd (snd r))"
    by (simp add: ec_io_wait_def r_def case_prod_beta Let_def)
  have f: "port_in (snd (snd r)) = port_in w" "duty_writes (trace (snd (snd r))) = duty_writes (trace w)"
    unfolding r_def using wait_loop_frame [of port flag val "fst (inb (ucast port) w)" 0 "snd (inb (ucast port) w)"]
    by (simp_all add: inb_frame duty_writes_append duty_writes_simps)
  show "port_in (ec_io_wait port flag val w) = port_in w"
    by (simp add: e f printf_frame)
  show "duty_writes (trace (ec_io_wait port flag val w)) = duty_writes (trace w)"
    by (simp add: e f printf_frame duty_writes_append duty_writes_simps)
qed

lemma wait_loop_timeout:
  assumes "\<forall>k<n. flag_bit (port_in w (n_in w + k)) flag \<noteq> sint val"
    and "flag_bit data flag \<noteq> sint val"
    and "n \<le> 100"
  shows "ec_io_wait_loop port flag val data (100 - int n) w =
     (if n = 0 then data else port_in w (n_in w + n - 1), 101,
      w\<lparr>n_in := n_in w + n,
        trace := trace w @ concat (map (poll_attempt (ucast port) w) [0..<n])\<rparr>)"
  using assms
proof (induction n arbitrary: data w)
  case 0
  then show ?case by (subst ec_io_wait_loop.simps) simp
next
  case (Suc n)
  define w2 where "w2 = snd (inb (ucast port) (usleep 1000 w))"
  define d2 where "d2 = fst (inb (ucast port) (usleep 1000 w))"
  have pw: "port_in w2 = port_in w" and nw: "n_in w2 = n_in w + 1"
    and tw: "trace w2 = trace w @ poll_attempt (ucast port) w 0"
    and dv: "d2 = port_in w (n_in w)"
    by (simp_all add: w2_def d2_def inb_frame usleep_frame poll_attempt_def)
  have step: "ec_io_wait_loop port flag val data (100 - int (Suc n)) w =
      ec_io_wait_loop port flag val d2 (100 - int n) w2"
    using Suc.prems(2) by (subst ec_io_wait_loop.simps) (simp add: Let_def w2_def d2_def)
  have h2: "\<forall>k<n. flag_bit (port_in w2 (n_in w2 + k)) flag \<noteq> sint val"
  proof (intro allI impI)
    fix k
    assume "k < n"
    then have "Suc k < Suc n" by simp
    with Suc.prems(1) have "flag_bit (port_in w (n_in w + Suc k)) flag \<noteq> sint val" by blast
    then show "flag_bit (port_in w2 (n_in w2 + k)) flag \<noteq> sint val" by (simp add: pw nw)
  qed
  have "flag_bit (port_in w (n_in w + 0)) flag \<noteq> sint val" using Suc.prems(1) by blast
  then have h0: "flag_bit d2 flag \<noteq> sint val" by (simp add: dv)
  have n100: "n \<le> 100" using Suc.prems(3) by simp
  have ih: "ec_io_wait_loop port flag val d2 (100 - int n) w2 =
     (if n = 0 then d2 else port_in w2 (n_in w2 + n - 1), 101,
      w2\<lparr>n_in := n_in w2 + n,
        trace := trace w2 @ concat (map (poll_attempt (ucast port) w2) [0..<n])\<rparr>)"
    using h2 h0 n100 by (rule Suc.IH)
  have shift: "map (poll_attempt (ucast port) w2) [0..<n] =
      map (poll_attempt (ucast port) w) (map Suc [0..<n])"
    by (simp add: poll_attempt_def pw nw)
  have cat: "trace w2 @ concat (map (poll_attempt (ucast port) w2) [0..<n]) =
      trace w @ concat (map (poll_attempt (ucast port) w) [0..<Suc n])"
    unfolding shift tw map_Suc_upt by (simp add: upt_conv_Cons del: upt_Suc)
  have weq: "w2\<lparr>n_in := n_in w2 + n, trace := trace w @ concat (map (poll_attempt (ucast port) w) [0..<Suc n])\<rparr>
      = w\<lparr>n_in := n_in w + Suc n, trace := trace w @ concat (map (poll_attempt (ucast port) w) [0..<Suc n])\<rparr>"
    by (simp add: w2_def inb_def usleep_def Let_def)
  show ?case
    unfolding step ih cat weq by (simp add: pw nw dv)
qed

section \<open>A wait that times out\<close>

lemma timed_out_wait_shift:
  assumes "port_in w1 = port_in w" and "n_in w1 = n_in w + 1"
  shows "map (poll_attempt p w1) [0..<100] = map (poll_attempt p w) [1..<101]"
proof -
  have "[1..<101] = map Suc [0..<100]" by (simp only: map_Suc_upt) simp
  then show ?thesis by (simp add: poll_attempt_def assms)
qed

lemma ec_io_wait_timeout:
  assumes "\<forall>k\<le>100. flag_bit (port_in w (n_in w + k)) flag \<noteq> sint val"
  shows "ec_io_wait port flag val w =
     w\<lparr>n_in := n_in w + 101, trace := trace w @ timed_out_wait port flag val w\<rparr>"
proof -
  define w1 where "w1 = snd (inb (ucast port) w)"
  define d0 where "d0 = fst (inb (ucast port) w)"
  have pw: "port_in w1 = port_in w" and nw: "n_in w1 = n_in w + 1"
    and tw: "trace w1 = trace w @ [Inb (ucast port) (port_in w (n_in w))]"
    and dv: "d0 = port_in w (n_in w)"
    by (simp_all add: w1_def d0_def inb_frame)
  have h1: "\<forall>k<100. flag_bit (port_in w1 (n_in w1 + k)) flag \<noteq> sint val"
  proof (intro allI impI)
    fix k :: nat
    assume "k < 100"
    then have "Suc k \<le> 100" by simp
    with assms have "flag_bit (port_in w (n_in w + Suc k)) flag \<noteq> sint val" by blast
    then show "flag_bit (port_in w1 (n_in w1 + k)) flag \<noteq> sint val" by (simp add: pw nw)
  qed
  have "flag_bit (port_in w (n_in w + 0)) flag \<noteq> sint val" using assms by blast
  then have h0: "flag_bit d0 flag \<noteq> sint val" by (simp add: dv)
  have "ec_io_wait_loop port flag val d0 (100 - int 100) w1 =
     (if (100::nat) = 0 then d0 else port_in w1 (n_in w1 + 100 - 1), 101,
      w1\<lparr>n_in := n_in w1 + 100,
        trace := trace w1 @ concat (map (poll_attempt (ucast port) w1) [0..<100])\<rparr>)"
    using h1 h0 by (rule wait_loop_timeout) simp
  then have loop: "ec_io_wait_loop port flag val d0 0 w1 =
     (port_in w (n_in w + 100), 101,
      w1\<lparr>n_in := n_in w + 101,
        trace := trace w1 @ concat (map (poll_attempt (ucast port) w) [1..<101])\<rparr>)"
    by (simp add: pw nw timed_out_wait_shift [OF pw nw] ac_simps)
  have "ec_io_wait port flag val w =
      (case ec_io_wait_loop port flag val d0 0 w1 of
         (data, i, w2) \<Rightarrow> if 100 \<le> i then printf (Print_wait_ec_error port data flag val) w2 else w2)"
    by (simp add: ec_io_wait_def w1_def d0_def case_prod_beta)
  also have "\<dots> = printf (Print_wait_ec_error port (port_in w (n_in w + 100)) flag val)
      (w1\<lparr>n_in := n_in w + 101,
        trace := trace w1 @ concat (map (poll_attempt (ucast port) w) [1..<101])\<rparr>)"
    by (simp only: loop) simp
  also have "\<dots> = w\<lparr>n_in := n_in w + 101, trace := trace w @ timed_out_wait port flag val w\<rparr>"
    by (simp add: printf_def timed_out_wait_def tw) (simp add: w1_def inb_def Let_def)
  finally show ?thesis .
qed

text \<open>A wait whose flag has the awaited value at the first read returns after that read.\<close>

lemma ec_io_wait_ready:
  assumes "flag_bit (port_in w (n_in w)) flag = sint val"
  shows "ec_io_wait port flag val w =
     w\<lparr>n_in := n_in w + 1, trace := trace w @ [Inb (ucast port) (port_in w (n_in w))]\<rparr>"
proof -
  have "ec_io_wait_loop port flag val (port_in w (n_in w)) 0 (snd (inb (ucast port) w)) =
      (port_in w (n_in w), 0, snd (inb (ucast port) w))"
    using assms by (subst ec_io_wait_loop.simps) simp
  then show ?thesis
    by (simp add: ec_io_wait_def case_prod_beta inb_frame) (simp_all add: inb_def Let_def)?
qed

lemma poll_attempts_length:
  "length (concat (map (poll_attempt p w) ks)) = 2 * length ks"
  by (induction ks) (simp_all add: poll_attempt_def)

lemma poll_attempts_sleeps:
  "filter (\<lambda>e. e = Usleep 1000) (concat (map (poll_attempt p w) ks)) =
     replicate (length ks) (Usleep 1000)"
  by (induction ks) (simp_all add: poll_attempt_def)

lemma poll_attempts_reads:
  "filter (\<lambda>e. e \<noteq> Usleep 1000) (concat (map (poll_attempt p w) ks)) =
     map (\<lambda>k. Inb p (port_in w (n_in w + k))) ks"
  by (induction ks) (simp_all add: poll_attempt_def)

lemma timed_out_wait_counts:
  "length (timed_out_wait port flag val w) = 202"
  "filter (\<lambda>e. e = Usleep 1000) (timed_out_wait port flag val w) = replicate 100 (Usleep 1000)"
  "filter (\<lambda>e. e \<noteq> Usleep 1000) (timed_out_wait port flag val w) =
     map (\<lambda>k. Inb (ucast port) (port_in w (n_in w + k))) [0..<101]
       @ [Print_wait_ec_error port (port_in w (n_in w + 100)) flag val]"
  "last (timed_out_wait port flag val w) =
     Print_wait_ec_error port (port_in w (n_in w + 100)) flag val"
proof -
  show "length (timed_out_wait port flag val w) = 202"
    by (simp add: timed_out_wait_def poll_attempts_length)
  show "filter (\<lambda>e. e = Usleep 1000) (timed_out_wait port flag val w) = replicate 100 (Usleep 1000)"
    by (simp add: timed_out_wait_def poll_attempts_sleeps)
  have "[0..<101] = 0 # [1..<101]" by (simp add: upt_conv_Cons)
  then show "filter (\<lambda>e. e \<noteq> Usleep 1000) (timed_out_wait port flag val w) =
     map (\<lambda>k. Inb (ucast port) (port_in w (n_in w + k))) [0..<101]
       @ [Print_wait_ec_error port (port_in w (n_in w + 100)) flag val]"
    by (simp add: timed_out_wait_def poll_attempts_reads)
  show "last (timed_out_wait port flag val w) =
     Print_wait_ec_error port (port_in w (n_in w + 100)) flag val"
    by (simp add: timed_out_wait_def)
qed

section \<open>Register operations and duty writes\<close>

text \<open>
  Reads never send the command byte \<open>0x99\<close> to the command port; a duty write sends it
  exactly once. The RPM query never fails.
\<close>

lemma ucast_consts:
  "(ucast EC_SC :: 16 word) = 0x66"
  "(ucast EC_DATA :: 16 word) = 0x62"
  "(ucast EC_SC_READ_CMD :: 8 word) = 0x80"
  "(ucast (0x99 :: 32 word) :: 8 word) = 0x99"
  "(ucast (0x01 :: 32 word) :: 8 word) = 0x01"
  by (simp_all add: EC_SC_def EC_DATA_def EC_SC_READ_CMD_def)

lemma ec_io_read_frame:
  "port_in (snd (ec_io_read r w)) = port_in w"
  "duty_writes (trace (snd (ec_io_read r w))) = duty_writes (trace w)"
  by (simp_all add: ec_io_read_def Let_def inb_frame outb_frame ec_io_wait_frame
      duty_writes_append duty_writes_simps ucast_consts)

lemma ec_io_do_writes:
  "port_in (ec_io_do 0x99 0x01 v w) = port_in w"
  "duty_writes (trace (ec_io_do 0x99 0x01 v w)) = duty_writes (trace w) + 1"
  by (simp_all add: ec_io_do_def Let_def outb_frame ec_io_wait_frame
      duty_writes_append duty_writes_simps ucast_consts)

lemma ec_write_fan_duty_writes:
  "duty_writes (trace (ec_write_fan_duty d w)) = duty_writes (trace w) + 1"
  by (simp add: ec_write_fan_duty_def Let_def ec_io_do_writes)

lemma query_frames:
  "duty_writes (trace (snd (ec_query_cpu_temp w))) = duty_writes (trace w)"
  "duty_writes (trace (snd (ec_query_gpu_temp w))) = duty_writes (trace w)"
  "duty_writes (trace (snd (ec_query_fan_duty w))) = duty_writes (trace w)"
  by (simp_all add: ec_query_cpu_temp_def ec_query_gpu_temp_def ec_query_fan_duty_def
      case_prod_beta Let_def ec_io_read_frame)

lemma c_div_pos:
  assumes "0 < b" and "0 \<le> a"
  shows "c_div a b = Inr (a div b)"
proof -
  have "sgn a * (\<bar>a\<bar> div b) = a div b" using assms by (cases "a = 0") simp_all
  then show ?thesis using assms by (simp add: c_div_def)
qed

lemma fan_rpms_total:
  "fan_rpms hi lo =
     Inr (if 0 < push_bit 8 hi + lo then 2156220 div (push_bit 8 hi + lo) else 0)"
  by (simp add: fan_rpms_def Let_def c_div_pos)

lemma ec_query_fan_rpms_total:
  "\<exists>rpm w1. ec_query_fan_rpms w = Inr (rpm, w1) \<and>
     duty_writes (trace w1) = duty_writes (trace w)"
  by (simp add: ec_query_fan_rpms_def case_prod_beta Let_def fan_rpms_total ec_io_read_frame)

lemma sample_temp_frame:
  "duty_writes (trace (snd (sample_temp cfg w))) = duty_writes (trace w)"
  by (simp add: sample_temp_def case_prod_beta Let_def query_frames)

lemma print_line_total:
  "\<exists>w1. print_line cfg temp_cur temp_max new_duty w = Inr w1 \<and>
     duty_writes (trace w1) = duty_writes (trace w)"
proof (cases "fan_duty_first cfg")
  case True
  obtain rpm w2 where "ec_query_fan_rpms (snd (ec_query_fan_duty w)) = Inr (rpm, w2)"
    and "duty_writes (trace w2) = duty_writes (trace (snd (ec_query_fan_duty w)))"
    using ec_query_fan_rpms_total by blast
  then show ?thesis using True
    by (simp add: print_line_def case_prod_beta Let_def printf_frame duty_writes_append
        duty_writes_simps query_frames)
next
  case False
  obtain rpm w1 where "ec_query_fan_rpms w = Inr (rpm, w1)"
    and "duty_writes (trace w1) = duty_writes (trace w)"
    using ec_query_fan_rpms_total by blast
  then show ?thesis using False
    by (simp add: print_line_def case_prod_beta Let_def printf_frame duty_writes_append
        duty_writes_simps query_frames)
qed

text \<open>A wait sends nothing; a command sends its three bytes, in order.\<close>

lemma outbs_append: "outbs (xs @ ys) = outbs xs @ outbs ys"
  by (simp add: outbs_def)

lemma outbs_simps:
  "outbs [] = []"
  "outbs (e # tr) = (if is_outb e then [e] else []) @ outbs tr"
  by (simp_all add: outbs_def)

lemma wait_loop_outbs:
  "outbs (trace (snd (snd (ec_io_wait_loop port flag val data i w)))) = outbs (trace w)"
proof (induction port flag val data i w rule: ec_io_wait_loop.induct)
  case (1 port flag val data i w)
  show ?case
  proof (cases "flag_bit data flag \<noteq> sint val \<and> i < 100")
    case True
    then show ?thesis
      using "1.IH" [OF _ _ refl refl]
      by (subst ec_io_wait_loop.simps)
        (simp add: Let_def inb_frame usleep_frame outbs_append outbs_simps)
  next
    case False
    then show ?thesis
      by (subst ec_io_wait_loop.simps) auto
  qed
qed

lemma ec_io_wait_outbs:
  "outbs (trace (ec_io_wait port flag val w)) = outbs (trace w)"
proof -
  define r where "r = ec_io_wait_loop port flag val (fst (inb (ucast port) w)) 0 (snd (inb (ucast port) w))"
  have e: "ec_io_wait port flag val w =
      (if 100 \<le> fst (snd r) then printf (Print_wait_ec_error port (fst r) flag val) (snd (snd r))
       else snd (snd r))"
    by (simp add: ec_io_wait_def r_def case_prod_beta Let_def)
  have f: "outbs (trace (snd (snd r))) = outbs (trace w)"
    unfolding r_def by (simp add: wait_loop_outbs inb_frame outbs_append outbs_simps)
  show ?thesis
    by (simp add: e f printf_frame outbs_append outbs_simps)
qed

lemma ec_io_do_outbs:
  "outbs (trace (ec_io_do cmd port v w)) =
     outbs (trace w) @ [Outb (ucast cmd) 0x66, Outb (ucast port) 0x62, Outb v 0x62]"
  by (simp add: ec_io_do_def Let_def outb_frame ec_io_wait_outbs outbs_append outbs_simps
      ucast_consts)

text \<open>
  The oracle is never changed, and a value read from a register is one of its bytes.
\<close>

lemma ec_io_read_value:
  "\<exists>k. fst (ec_io_read r w) = port_in w k"
  by (simp add: ec_io_read_def Let_def inb_frame outb_frame ec_io_wait_frame) blast

lemma query_port_in:
  "port_in (snd (ec_query_cpu_temp w)) = port_in w"
  "port_in (snd (ec_query_gpu_temp w)) = port_in w"
  "port_in (snd (ec_query_fan_duty w)) = port_in w"
  by (simp_all add: ec_query_cpu_temp_def ec_query_gpu_temp_def ec_query_fan_duty_def
      case_prod_beta Let_def ec_io_read_frame)

lemma query_temp_value:
  "\<exists>k. fst (ec_query_cpu_temp w) = uint (port_in w k)"
  "\<exists>k. fst (ec_query_gpu_temp w) = uint (port_in w k)"
  using ec_io_read_value [of EC_REG_CPU_TEMP w] ec_io_read_value [of EC_REG_GPU_TEMP w]
  by (auto simp: ec_query_cpu_temp_def ec_query_gpu_temp_def case_prod_beta)

lemma sample_temp_port_in:
  "port_in (snd (sample_temp cfg w)) = port_in w"
  by (simp add: sample_temp_def case_prod_beta Let_def query_port_in)

lemma sample_temp_value:
  "\<exists>j k. fst (sample_temp cfg w) = max_int (uint (port_in w j)) (uint (port_in w k))"
proof (cases "gpu_temp_first cfg")
  case True
  obtain j where j: "fst (ec_query_gpu_temp w) = uint (port_in w j)"
    using query_temp_value(2) by blast
  obtain k where k: "fst (ec_query_cpu_temp (snd (ec_query_gpu_temp w))) = uint (port_in w k)"
    using query_temp_value(1) [of "snd (ec_query_gpu_temp w)"] by (auto simp: query_port_in)
  show ?thesis using True j k by (auto simp: sample_temp_def case_prod_beta)
next
  case False
  obtain j where j: "fst (ec_query_cpu_temp w) = uint (port_in w j)"
    using query_temp_value(1) by blast
  obtain k where k: "fst (ec_query_gpu_temp (snd (ec_query_cpu_temp w))) = uint (port_in w k)"
    using query_temp_value(2) [of "snd (ec_query_cpu_temp w)"] by (auto simp: query_port_in)
  show ?thesis using False j k by (auto simp: sample_temp_def case_prod_beta)
qed

lemma ec_query_fan_rpms_port_in:
  "\<exists>rpm w1. ec_query_fan_rpms w = Inr (rpm, w1) \<and> port_in w1 = port_in w \<and>
     duty_writes (trace w1) = duty_writes (trace w)"
  by (simp add: ec_query_fan_rpms_def case_prod_beta Let_def fan_rpms_total ec_io_read_frame)

lemma print_line_port_in:
  "\<exists>w1. print_line cfg temp_cur temp_max new_duty w = Inr w1 \<and> port_in w1 = port_in w \<and>
     duty_writes (trace w1) = duty_writes (trace w)"
proof (cases "fan_duty_first cfg")
  case True
  obtain rpm w2 where "ec_query_fan_rpms (snd (ec_query_fan_duty w)) = Inr (rpm, w2)"
    and "port_in w2 = port_in (snd (ec_query_fan_duty w))"
    and "duty_writes (trace w2) = duty_writes (trace (snd (ec_query_fan_duty w)))"
    using ec_query_fan_rpms_port_in by blast
  then show ?thesis using True
    by (simp add: print_line_def case_prod_beta Let_def printf_frame duty_writes_append
        duty_writes_simps query_frames query_port_in)
next
  case False
  obtain rpm w1 where "ec_query_fan_rpms w = Inr (rpm, w1)"
    and "port_in w1 = port_in w"
    and "duty_writes (trace w1) = duty_writes (trace w)"
    using ec_query_fan_rpms_port_in by blast
  then show ?thesis using False
    by (simp add: print_line_def case_prod_beta Let_def printf_frame duty_writes_append
        duty_writes_simps query_frames query_port_in)
qed

section \<open>One pass of the control loop\<close>

text \<open>
  From a state whose cursor is inside the array, a pass succeeds, keeps the cursor inside
  the array, writes the duty exactly when it differs from \<^verbatim>\<open>prev_duty\<close>, and leaves
  \<^verbatim>\<open>prev_duty\<close> alone otherwise. Every state of a run is such a state.
\<close>

lemma state_ok_pos: "state_ok cfg s \<Longrightarrow> temp_history_pos s < length (temp_history s)"
  by (simp add: state_ok_def)

lemma push_fields:
  "prev_duty (push cfg t s) = prev_duty s"
  "hw (push cfg t s) = hw s"
  "temp_history (push cfg t s) = (temp_history s)[temp_history_pos s := t]"
  "temp_history_pos (push cfg t s) = (temp_history_pos s + 1) mod TEMP_HISTORY_LEN cfg"
  by (simp_all add: push_def)

lemma push_state_ok:
  assumes "state_ok cfg s"
  shows "state_ok cfg (push cfg t s)"
  using assms by (simp add: state_ok_def push_fields)

lemma cycle_compute_total:
  assumes "state_ok cfg s"
  shows "\<exists>new_duty s1. cycle_compute cfg s = Inr (new_duty, s1) \<and>
     prev_duty s1 = prev_duty s \<and> state_ok cfg s1 \<and>
     duty_writes (trace (hw s1)) = duty_writes (trace (hw s)) \<and>
     new_duty = temp_to_duty (windowedMax s1)"
proof -
  define temp_cur where "temp_cur = fst (sample_temp cfg (hw s))"
  define w1 where "w1 = snd (sample_temp cfg (hw s))"
  define s1 where "s1 = push cfg temp_cur (s\<lparr>hw := w1\<rparr>)"
  have ok1: "state_ok cfg s1"
    unfolding s1_def using assms by (intro push_state_ok) (simp add: state_ok_def)
  have f1: "prev_duty s1 = prev_duty s" "hw s1 = w1"
    by (simp_all add: s1_def push_fields)
  have w1: "duty_writes (trace w1) = duty_writes (trace (hw s))"
    by (simp add: w1_def sample_temp_frame)
  show ?thesis
  proof (cases "PRINT_STATE cfg")
    case True
    obtain w2 where p: "print_line cfg temp_cur (windowedMax s1) (temp_to_duty (windowedMax s1)) w1 = Inr w2"
      and w2: "duty_writes (trace w2) = duty_writes (trace w1)"
      using print_line_total by blast
    have "cycle_compute cfg s = Inr (temp_to_duty (windowedMax s1), s1\<lparr>hw := w2\<rparr>)"
      using True state_ok_pos [OF assms] p
      by (simp add: cycle_compute_def case_prod_beta Let_def temp_cur_def [symmetric]
          w1_def [symmetric] s1_def [symmetric] f1)
    moreover have "state_ok cfg (s1\<lparr>hw := w2\<rparr>)" using ok1 by (simp add: state_ok_def)
    moreover have "windowedMax (s1\<lparr>hw := w2\<rparr>) = windowedMax s1" by (simp add: windowedMax_def)
    ultimately show ?thesis using f1 w1 w2 by simp
  next
    case False
    have "cycle_compute cfg s = Inr (temp_to_duty (windowedMax s1), s1)"
      using False state_ok_pos [OF assms]
      by (simp add: cycle_compute_def case_prod_beta Let_def temp_cur_def [symmetric]
          w1_def [symmetric] s1_def [symmetric])
    then show ?thesis using f1 w1 ok1 by simp
  qed
qed

lemma write_duty_effect:
  "duty_writes (trace (hw (write_duty d s))) =
     duty_writes (trace (hw s)) + (if d \<noteq> prev_duty s then 1 else 0)"
  "prev_duty (write_duty d s) = (if d \<noteq> prev_duty s then d else prev_duty s)"
  "temp_history (write_duty d s) = temp_history s"
  "temp_history_pos (write_duty d s) = temp_history_pos s"
  by (simp_all add: write_duty_def ec_write_fan_duty_writes)

lemma cycle_effect:
  assumes "state_ok cfg s"
  shows "\<exists>d a s1. cycle_compute cfg s = Inr (d, a) \<and> cycle cfg s = Inr s1 \<and>
     state_ok cfg s1 \<and>
     duty_writes (trace (hw s1)) = duty_writes (trace (hw s)) + (if d \<noteq> prev_duty s then 1 else 0) \<and>
     prev_duty s1 = (if d \<noteq> prev_duty s then d else prev_duty s)"
proof -
  obtain d a where c: "cycle_compute cfg s = Inr (d, a)" and p: "prev_duty a = prev_duty s"
    and ok: "state_ok cfg a" and wr: "duty_writes (trace (hw a)) = duty_writes (trace (hw s))"
    using cycle_compute_total [OF assms] by blast
  define s2 where "s2 = write_duty d a"
  define s1 where "s1 = s2\<lparr>hw := usleep (1000 * 1000 div RATE cfg) (hw s2)\<rparr>"
  have "cycle cfg s = Inr s1" by (simp add: cycle_def c Let_def s1_def s2_def)
  moreover have "state_ok cfg s1"
    using ok by (simp add: s1_def s2_def state_ok_def write_duty_effect)
  moreover have "duty_writes (trace (hw s1)) =
      duty_writes (trace (hw s)) + (if d \<noteq> prev_duty s then 1 else 0)"
    by (simp add: s1_def s2_def usleep_frame duty_writes_append duty_writes_simps
        write_duty_effect p wr)
  moreover have "prev_duty s1 = (if d \<noteq> prev_duty s then d else prev_duty s)"
    by (simp add: s1_def s2_def write_duty_effect p)
  ultimately show ?thesis using c by blast
qed

lemma main_init_ok:
  assumes "0 < TEMP_HISTORY_LEN cfg"
  shows "\<exists>s0. main_init cfg True True w = Inr s0 \<and> state_ok cfg s0 \<and> prev_duty s0 = - 1 \<and>
     hw s0 = w \<and> temp_history s0 = replicate (TEMP_HISTORY_LEN cfg) 0 \<and> temp_history_pos s0 = 0"
  using assms by (simp add: main_init_def state_ok_def)

lemma main_loop_total:
  assumes "state_ok cfg s"
  shows "\<exists>s1. main_loop cfg n s = Inr s1 \<and> state_ok cfg s1"
  using assms
proof (induction n arbitrary: s)
  case 0
  then show ?case by simp
next
  case (Suc n)
  obtain s1 where c: "cycle cfg s = Inr s1" and ok: "state_ok cfg s1"
    using cycle_effect [OF Suc.prems] by blast
  show ?case using Suc.IH [OF ok] c by simp
qed

lemma cycle_total:
  assumes "state_ok cfg s"
  shows "\<exists>s1. cycle cfg s = Inr s1"
  using cycle_effect [OF assms] by blast

text \<open>
  What a pass does, in full: the sample goes into the history at the cursor, the duty is
  computed from the maximum of the new history, the three bytes of the duty command are
  sent exactly when that duty differs from \<^verbatim>\<open>prev_duty\<close>, and the pass ends with the
  sleep.
\<close>

lemma cycle_compute_detail:
  assumes "state_ok cfg s"
  shows "\<exists>d a. cycle_compute cfg s = Inr (d, a) \<and> d = temp_to_duty (windowedMax a) \<and>
     temp_history a = (temp_history s)[temp_history_pos s := fst (sample_temp cfg (hw s))] \<and>
     temp_history_pos a = (temp_history_pos s + 1) mod TEMP_HISTORY_LEN cfg \<and>
     prev_duty a = prev_duty s \<and> state_ok cfg a \<and> port_in (hw a) = port_in (hw s) \<and>
     duty_writes (trace (hw a)) = duty_writes (trace (hw s))"
proof -
  define temp_cur where "temp_cur = fst (sample_temp cfg (hw s))"
  define w1 where "w1 = snd (sample_temp cfg (hw s))"
  define s1 where "s1 = push cfg temp_cur (s\<lparr>hw := w1\<rparr>)"
  have ok1: "state_ok cfg s1"
    unfolding s1_def using assms by (intro push_state_ok) (simp add: state_ok_def)
  have f1: "prev_duty s1 = prev_duty s" "hw s1 = w1"
    "temp_history s1 = (temp_history s)[temp_history_pos s := temp_cur]"
    "temp_history_pos s1 = (temp_history_pos s + 1) mod TEMP_HISTORY_LEN cfg"
    by (simp_all add: s1_def push_fields)
  have w1: "duty_writes (trace w1) = duty_writes (trace (hw s))" "port_in w1 = port_in (hw s)"
    by (simp_all add: w1_def sample_temp_frame sample_temp_port_in)
  show ?thesis
  proof (cases "PRINT_STATE cfg")
    case True
    obtain w2 where p: "print_line cfg temp_cur (windowedMax s1) (temp_to_duty (windowedMax s1)) w1 = Inr w2"
      and w2: "duty_writes (trace w2) = duty_writes (trace w1)" "port_in w2 = port_in w1"
      using print_line_port_in by blast
    have "cycle_compute cfg s = Inr (temp_to_duty (windowedMax s1), s1\<lparr>hw := w2\<rparr>)"
      using True state_ok_pos [OF assms] p
      by (simp add: cycle_compute_def case_prod_beta Let_def temp_cur_def [symmetric]
          w1_def [symmetric] s1_def [symmetric] f1)
    moreover have "state_ok cfg (s1\<lparr>hw := w2\<rparr>)" using ok1 by (simp add: state_ok_def)
    moreover have "windowedMax (s1\<lparr>hw := w2\<rparr>) = windowedMax s1" by (simp add: windowedMax_def)
    ultimately show ?thesis using f1 w1 w2 by (simp add: temp_cur_def)
  next
    case False
    have "cycle_compute cfg s = Inr (temp_to_duty (windowedMax s1), s1)"
      using False state_ok_pos [OF assms]
      by (simp add: cycle_compute_def case_prod_beta Let_def temp_cur_def [symmetric]
          w1_def [symmetric] s1_def [symmetric])
    then show ?thesis using f1 w1 ok1 by (simp add: temp_cur_def)
  qed
qed

lemma usleep_outbs: "outbs (trace (usleep n w)) = outbs (trace w)"
  by (simp add: usleep_frame outbs_append outbs_simps)

lemma write_duty_outbs:
  "outbs (trace (hw (write_duty d s))) =
     outbs (trace (hw s)) @
       (if d \<noteq> prev_duty s
        then [Outb 0x99 0x66, Outb 0x01 0x62, Outb (word_of_int (duty_raw (sanitize d))) 0x62]
        else [])"
  "port_in (hw (write_duty d s)) = port_in (hw s)"
  by (simp_all add: write_duty_def ec_write_fan_duty_def Let_def ec_io_do_outbs ec_io_do_writes)

lemma sanitize_duty: "sanitize (temp_to_duty t) = temp_to_duty t"
  using temp_to_duty_range [of t] by (simp add: sanitize_def Let_def)

lemma cycle_detail:
  assumes "state_ok cfg s"
  shows "\<exists>d a s1. cycle_compute cfg s = Inr (d, a) \<and> cycle cfg s = Inr s1 \<and>
     state_ok cfg s1 \<and> d = temp_to_duty (windowedMax a) \<and>
     temp_history a = (temp_history s)[temp_history_pos s := fst (sample_temp cfg (hw s))] \<and>
     temp_history s1 = temp_history a \<and>
     temp_history_pos s1 = (temp_history_pos s + 1) mod TEMP_HISTORY_LEN cfg \<and>
     port_in (hw s1) = port_in (hw s) \<and>
     duty_writes (trace (hw s1)) =
       duty_writes (trace (hw s)) + (if d \<noteq> prev_duty s then 1 else 0) \<and>
     prev_duty s1 = (if d \<noteq> prev_duty s then d else prev_duty s) \<and>
     outbs (trace (hw s1)) =
       outbs (trace (hw a)) @
         (if d \<noteq> prev_duty s
          then [Outb 0x99 0x66, Outb 0x01 0x62, Outb (word_of_int (duty_raw d)) 0x62]
          else []) \<and>
     last (trace (hw s1)) = Usleep (1000 * 1000 div RATE cfg)"
proof -
  obtain d a where c: "cycle_compute cfg s = Inr (d, a)"
    and d: "d = temp_to_duty (windowedMax a)"
    and h: "temp_history a = (temp_history s)[temp_history_pos s := fst (sample_temp cfg (hw s))]"
    and hp: "temp_history_pos a = (temp_history_pos s + 1) mod TEMP_HISTORY_LEN cfg"
    and p: "prev_duty a = prev_duty s" and ok: "state_ok cfg a"
    and pi: "port_in (hw a) = port_in (hw s)"
    and wr: "duty_writes (trace (hw a)) = duty_writes (trace (hw s))"
    using cycle_compute_detail [OF assms] by blast
  define s2 where "s2 = write_duty d a"
  define s1 where "s1 = s2\<lparr>hw := usleep (1000 * 1000 div RATE cfg) (hw s2)\<rparr>"
  have sd: "sanitize d = d" unfolding d by (rule sanitize_duty)
  have 1: "cycle cfg s = Inr s1" by (simp add: cycle_def c Let_def s1_def s2_def)
  have 2: "state_ok cfg s1"
    using ok by (simp add: s1_def s2_def state_ok_def write_duty_effect)
  have 3: "temp_history s1 = temp_history a"
    "temp_history_pos s1 = (temp_history_pos s + 1) mod TEMP_HISTORY_LEN cfg"
    by (simp_all add: s1_def s2_def write_duty_effect hp)
  have 4: "port_in (hw s1) = port_in (hw s)"
    by (simp add: s1_def s2_def usleep_frame write_duty_outbs pi)
  have 5: "duty_writes (trace (hw s1)) =
      duty_writes (trace (hw s)) + (if d \<noteq> prev_duty s then 1 else 0)"
    by (simp add: s1_def s2_def usleep_frame duty_writes_append duty_writes_simps
        write_duty_effect p wr)
  have 6: "prev_duty s1 = (if d \<noteq> prev_duty s then d else prev_duty s)"
    by (simp add: s1_def s2_def write_duty_effect p)
  have 7: "outbs (trace (hw s1)) =
       outbs (trace (hw a)) @
         (if d \<noteq> prev_duty s
          then [Outb 0x99 0x66, Outb 0x01 0x62, Outb (word_of_int (duty_raw d)) 0x62]
          else [])"
    by (simp add: s1_def s2_def usleep_outbs write_duty_outbs p sd)
  have 8: "last (trace (hw s1)) = Usleep (1000 * 1000 div RATE cfg)"
    by (simp add: s1_def usleep_frame)
  show ?thesis using c 1 2 d h 3 4 5 6 7 8 by blast
qed

text \<open>
  On hardware whose bytes are all at most 40, with a history that holds nothing above 40,
  every pass computes the duty 10.
\<close>

lemma temp_to_duty_low:
  assumes "t \<le> 40"
  shows "temp_to_duty t = 10"
  using assms by (simp add: temp_to_duty_split temp_scale_low duty_curve_0)

lemma foldl_max_int_le:
  assumes "\<forall>x\<in>set xs. x \<le> b" and "a \<le> b"
  shows "foldl max_int a xs \<le> b"
  using assms by (induction xs arbitrary: a) (simp_all add: max_int_def)

lemma cool_pass:
  assumes "state_ok cfg s"
    and "\<forall>x\<in>set (temp_history s). x \<le> 40"
    and "\<forall>k. uint (port_in (hw s) k) \<le> 40"
  shows "\<exists>a s1. cycle_compute cfg s = Inr (10, a) \<and> cycle cfg s = Inr s1 \<and>
     state_ok cfg s1 \<and> (\<forall>x\<in>set (temp_history s1). x \<le> 40) \<and>
     (\<forall>k. uint (port_in (hw s1) k) \<le> 40) \<and>
     duty_writes (trace (hw s1)) =
       duty_writes (trace (hw s)) + (if 10 \<noteq> prev_duty s then 1 else 0) \<and>
     prev_duty s1 = 10"
proof -
  obtain d a s1 where c: "cycle_compute cfg s = Inr (d, a)" "cycle cfg s = Inr s1"
    and ok: "state_ok cfg s1" and d: "d = temp_to_duty (windowedMax a)"
    and h: "temp_history a = (temp_history s)[temp_history_pos s := fst (sample_temp cfg (hw s))]"
    and h1: "temp_history s1 = temp_history a"
    and pi: "port_in (hw s1) = port_in (hw s)"
    and wr: "duty_writes (trace (hw s1)) =
       duty_writes (trace (hw s)) + (if d \<noteq> prev_duty s then 1 else 0)"
    and pd: "prev_duty s1 = (if d \<noteq> prev_duty s then d else prev_duty s)"
    using cycle_detail [OF assms(1)] by blast
  obtain j k where "fst (sample_temp cfg (hw s)) =
      max_int (uint (port_in (hw s) j)) (uint (port_in (hw s) k))"
    using sample_temp_value by blast
  then have t: "fst (sample_temp cfg (hw s)) \<le> 40"
    using assms(3) by (simp add: max_int_def)
  have "set (temp_history a) \<subseteq> insert (fst (sample_temp cfg (hw s))) (set (temp_history s))"
    unfolding h by (rule set_update_subset_insert)
  then have cool: "\<forall>x\<in>set (temp_history a). x \<le> 40" using t assms(2) by auto
  then have "windowedMax a \<le> 40" unfolding windowedMax_def by (rule foldl_max_int_le) simp
  then have d10: "d = 10" unfolding d by (rule temp_to_duty_low)
  have "prev_duty s1 = 10" using pd d10 by simp
  then show ?thesis using c ok cool h1 pi assms(3) wr d10 by auto
qed

lemma cool_start:
  "\<exists>s0. main_init default_config True True cool_hw = Inr s0 \<and> state_ok default_config s0 \<and>
     (\<forall>x\<in>set (temp_history s0). x \<le> 40) \<and> (\<forall>k. uint (port_in (hw s0) k) \<le> 40) \<and>
     duty_writes (trace (hw s0)) = 0 \<and> prev_duty s0 = - 1"
  by (simp add: main_init_def state_ok_def cool_hw_def duty_writes_simps
      TEMP_HISTORY_LEN_def default_config_def)

text \<open>
  Claim C1, as amended. In every pass of the control loop, a duty write to the hardware
  occurs if and only if the newly computed duty differs from \<^verbatim>\<open>prev_duty\<close>, the last
  duty written, and \<^verbatim>\<open>prev_duty\<close> changes only when a write occurs. Of two consecutive
  passes that compute the same duty the second performs no write, so the two passes
  cause at most one write: exactly one when the duty of the first differs from the duty
  written before it, and none otherwise. \<open>d1\<close> and \<open>d2\<close> are the duties that the two passes
  compute, each from the maximum of the history after its sample; a write sends the
  command \<open>0x99\<close>, the address \<open>0x01\<close> and the converted duty.
\<close>

theorem write_suppression:
  assumes "state_ok cfg s"
  shows "\<exists>d1 a1 s1 d2 a2 s2.
     cycle_compute cfg s = Inr (d1, a1) \<and> cycle cfg s = Inr s1 \<and>
     cycle_compute cfg s1 = Inr (d2, a2) \<and> cycle cfg s1 = Inr s2 \<and>
     main_loop cfg 2 s = Inr s2 \<and>
     d1 = temp_to_duty (windowedMax a1) \<and>
     temp_history a1 = (temp_history s)[temp_history_pos s := fst (sample_temp cfg (hw s))] \<and>
     d2 = temp_to_duty (windowedMax a2) \<and>
     temp_history a2 = (temp_history s1)[temp_history_pos s1 := fst (sample_temp cfg (hw s1))] \<and>
     duty_writes (trace (hw s1)) =
       duty_writes (trace (hw s)) + (if d1 \<noteq> prev_duty s then 1 else 0) \<and>
     outbs (trace (hw s1)) =
       outbs (trace (hw a1)) @
         (if d1 \<noteq> prev_duty s
          then [Outb 0x99 0x66, Outb 0x01 0x62, Outb (word_of_int (duty_raw d1)) 0x62]
          else []) \<and>
     prev_duty s1 = (if d1 \<noteq> prev_duty s then d1 else prev_duty s) \<and>
     duty_writes (trace (hw s2)) =
       duty_writes (trace (hw s1)) + (if d2 \<noteq> prev_duty s1 then 1 else 0) \<and>
     outbs (trace (hw s2)) =
       outbs (trace (hw a2)) @
         (if d2 \<noteq> prev_duty s1
          then [Outb 0x99 0x66, Outb 0x01 0x62, Outb (word_of_int (duty_raw d2)) 0x62]
          else []) \<and>
     prev_duty s2 = (if d2 \<noteq> prev_duty s1 then d2 else prev_duty s1) \<and>
     (d2 = d1 \<longrightarrow>
        duty_writes (trace (hw s2)) = duty_writes (trace (hw s1)) \<and>
        duty_writes (trace (hw s2)) =
          duty_writes (trace (hw s)) + (if d1 \<noteq> prev_duty s then 1 else 0))"
proof -
  obtain d1 a1 s1 where c1: "cycle_compute cfg s = Inr (d1, a1)" "cycle cfg s = Inr s1"
    and ok1: "state_ok cfg s1"
    and e1: "d1 = temp_to_duty (windowedMax a1)"
      "temp_history a1 = (temp_history s)[temp_history_pos s := fst (sample_temp cfg (hw s))]"
    and w1: "duty_writes (trace (hw s1)) =
       duty_writes (trace (hw s)) + (if d1 \<noteq> prev_duty s then 1 else 0)"
    and p1: "prev_duty s1 = (if d1 \<noteq> prev_duty s then d1 else prev_duty s)"
    and o1: "outbs (trace (hw s1)) =
       outbs (trace (hw a1)) @
         (if d1 \<noteq> prev_duty s
          then [Outb 0x99 0x66, Outb 0x01 0x62, Outb (word_of_int (duty_raw d1)) 0x62]
          else [])"
    using cycle_detail [OF assms] by blast
  obtain d2 a2 s2 where c2: "cycle_compute cfg s1 = Inr (d2, a2)" "cycle cfg s1 = Inr s2"
    and e2: "d2 = temp_to_duty (windowedMax a2)"
      "temp_history a2 = (temp_history s1)[temp_history_pos s1 := fst (sample_temp cfg (hw s1))]"
    and w2: "duty_writes (trace (hw s2)) =
       duty_writes (trace (hw s1)) + (if d2 \<noteq> prev_duty s1 then 1 else 0)"
    and p2: "prev_duty s2 = (if d2 \<noteq> prev_duty s1 then d2 else prev_duty s1)"
    and o2: "outbs (trace (hw s2)) =
       outbs (trace (hw a2)) @
         (if d2 \<noteq> prev_duty s1
          then [Outb 0x99 0x66, Outb 0x01 0x62, Outb (word_of_int (duty_raw d2)) 0x62]
          else [])"
    using cycle_detail [OF ok1] by blast
  have m: "main_loop cfg 2 s = Inr s2"
    by (simp add: numeral_2_eq_2 c1 c2)
  have same: "d2 = d1 \<longrightarrow>
        duty_writes (trace (hw s2)) = duty_writes (trace (hw s1)) \<and>
        duty_writes (trace (hw s2)) =
          duty_writes (trace (hw s)) + (if d1 \<noteq> prev_duty s then 1 else 0)"
    using w1 w2 p1 by auto
  show ?thesis
    using c1 c2 m e1 e2 w1 o1 p1 w2 o2 p2 same by blast
qed

theorem write_suppression_witness:
  "run_duty default_config 0 cool_hw = Some 10 \<and> run_duty default_config 1 cool_hw = Some 10 \<and>
   run_writes default_config 0 cool_hw = Some 0 \<and> run_writes default_config 1 cool_hw = Some 1 \<and>
   run_writes default_config 2 cool_hw = Some 1"
proof -
  obtain s0 where i: "main_init default_config True True cool_hw = Inr s0"
    and ok0: "state_ok default_config s0" and c0: "\<forall>x\<in>set (temp_history s0). x \<le> 40"
    and h0: "\<forall>k. uint (port_in (hw s0) k) \<le> 40"
    and w0: "duty_writes (trace (hw s0)) = 0" and p0: "prev_duty s0 = - 1"
    using cool_start by blast
  obtain d1 a1 s1 d2 a2 s2 where
    x1: "cycle_compute default_config s0 = Inr (d1, a1)" and y1: "cycle default_config s0 = Inr s1"
    and x2: "cycle_compute default_config s1 = Inr (d2, a2)"
    and m2: "main_loop default_config 2 s0 = Inr s2"
    and w1: "duty_writes (trace (hw s1)) =
       duty_writes (trace (hw s0)) + (if d1 \<noteq> prev_duty s0 then 1 else 0)"
    and same: "d2 = d1 \<longrightarrow>
        duty_writes (trace (hw s2)) = duty_writes (trace (hw s1)) \<and>
        duty_writes (trace (hw s2)) =
          duty_writes (trace (hw s0)) + (if d1 \<noteq> prev_duty s0 then 1 else 0)"
    using write_suppression [OF ok0] by blast
  obtain b1 t1 where "cycle_compute default_config s0 = Inr (10, b1)"
    and "cycle default_config s0 = Inr t1" and ok1: "state_ok default_config t1"
    and c1: "\<forall>x\<in>set (temp_history t1). x \<le> 40"
    and h1: "\<forall>k. uint (port_in (hw t1) k) \<le> 40"
    using cool_pass [OF ok0 c0 h0] by blast
  then have d1: "d1 = 10" and t1: "t1 = s1" using x1 y1 by simp_all
  obtain b2 where "cycle_compute default_config s1 = Inr (10, b2)"
    using cool_pass [OF ok1 c1 h1] t1 by blast
  then have d2: "d2 = 10" using x2 by simp
  have ws1: "duty_writes (trace (hw s1)) = 1" using w1 d1 p0 w0 by simp
  have ws2: "duty_writes (trace (hw s2)) = 1" using same d1 d2 ws1 by simp
  have r0: "run default_config 0 cool_hw = Inr s0" by (simp add: run_def i)
  have "main_loop default_config (Suc 0) s0 = Inr s1" by (simp add: y1)
  then have r1: "run default_config 1 cool_hw = Inr s1"
    by (simp only: run_def i One_nat_def) simp
  have r2: "run default_config 2 cool_hw = Inr s2" by (simp add: run_def i m2)
  have "run_duty default_config 0 cool_hw = Some 10"
    unfolding run_duty_def r0 by (simp add: x1 d1)
  moreover have "run_duty default_config 1 cool_hw = Some 10"
    unfolding run_duty_def r1 by (simp add: x2 d2)
  moreover have "run_writes default_config 0 cool_hw = Some 0"
    unfolding run_writes_def r0 by (simp add: w0)
  moreover have "run_writes default_config 1 cool_hw = Some 1"
    unfolding run_writes_def r1 by (simp add: ws1)
  moreover have "run_writes default_config 2 cool_hw = Some 1"
    unfolding run_writes_def r2 by (simp add: ws2)
  ultimately show ?thesis by blast
qed

text \<open>
  Claim C1 as first stated says that two consecutive passes computing the same duty cause
  exactly one write. On \<open>cool_hw\<close> the second and the third pass both compute the duty
  10, and the number of writes is 1 before the second pass and still 1 after the third:
  the two passes cause no write.
\<close>

theorem write_suppression_counterexample:
  "run_duty default_config 1 cool_hw = Some 10 \<and> run_duty default_config 2 cool_hw = Some 10 \<and>
   run_writes default_config 1 cool_hw = Some 1 \<and> run_writes default_config 3 cool_hw = Some 1"
proof -
  obtain s0 where i: "main_init default_config True True cool_hw = Inr s0"
    and ok0: "state_ok default_config s0" and c0: "\<forall>x\<in>set (temp_history s0). x \<le> 40"
    and h0: "\<forall>k. uint (port_in (hw s0) k) \<le> 40"
    and w0: "duty_writes (trace (hw s0)) = 0" and p0: "prev_duty s0 = - 1"
    using cool_start by blast
  obtain s1 where y1: "cycle default_config s0 = Inr s1"
    and ok1: "state_ok default_config s1" and c1: "\<forall>x\<in>set (temp_history s1). x \<le> 40"
    and h1: "\<forall>k. uint (port_in (hw s1) k) \<le> 40"
    and w1: "duty_writes (trace (hw s1)) = 1" and p1: "prev_duty s1 = 10"
    using cool_pass [OF ok0 c0 h0] w0 p0 by auto
  obtain a2 s2 where x2: "cycle_compute default_config s1 = Inr (10, a2)"
    and y2: "cycle default_config s1 = Inr s2"
    and ok2: "state_ok default_config s2" and c2: "\<forall>x\<in>set (temp_history s2). x \<le> 40"
    and h2: "\<forall>k. uint (port_in (hw s2) k) \<le> 40"
    and w2: "duty_writes (trace (hw s2)) = 1" and p2: "prev_duty s2 = 10"
    using cool_pass [OF ok1 c1 h1] w1 p1 by auto
  obtain a3 s3 where x3: "cycle_compute default_config s2 = Inr (10, a3)"
    and y3: "cycle default_config s2 = Inr s3"
    and w3: "duty_writes (trace (hw s3)) = 1"
    using cool_pass [OF ok2 c2 h2] w2 p2 by auto
  have "main_loop default_config (Suc 0) s0 = Inr s1" by (simp add: y1)
  then have r1: "run default_config 1 cool_hw = Inr s1"
    by (simp only: run_def i One_nat_def) simp
  have r2: "run default_config 2 cool_hw = Inr s2"
    by (simp add: run_def i numeral_2_eq_2 y1 y2)
  have r3: "run default_config 3 cool_hw = Inr s3"
    by (simp add: run_def i numeral_3_eq_3 y1 y2 y3)
  have "run_duty default_config 1 cool_hw = Some 10"
    unfolding run_duty_def r1 by (simp add: x2)
  moreover have "run_duty default_config 2 cool_hw = Some 10"
    unfolding run_duty_def r2 by (simp add: x3)
  moreover have "run_writes default_config 1 cool_hw = Some 1"
    unfolding run_writes_def r1 by (simp add: w1)
  moreover have "run_writes default_config 3 cool_hw = Some 1"
    unfolding run_writes_def r3 by (simp add: w3)
  ultimately show ?thesis by blast
qed

text \<open>
  Claim C6. The first pass of the control loop always performs a duty write, whatever duty
  it computes: \<^verbatim>\<open>prev_duty\<close> starts at the value \<open>- 1\<close>, which no computed duty equals.
\<close>

theorem first_cycle_writes:
  assumes "0 < TEMP_HISTORY_LEN cfg"
  shows "\<exists>s0 d a s1.
     main_init cfg True True w = Inr s0 \<and> prev_duty s0 = - 1 \<and>
     (\<forall>t. temp_to_duty t \<noteq> prev_duty s0) \<and>
     cycle_compute cfg s0 = Inr (d, a) \<and> cycle cfg s0 = Inr s1 \<and>
     main_loop cfg 1 s0 = Inr s1 \<and>
     duty_writes (trace (hw s1)) = duty_writes (trace w) + 1 \<and>
     prev_duty s1 = d"
proof -
  obtain s0 where i: "main_init cfg True True w = Inr s0" and ok: "state_ok cfg s0"
    and p0: "prev_duty s0 = - 1" and h0: "hw s0 = w"
    using main_init_ok [OF assms] by blast
  obtain d a s1 where c: "cycle_compute cfg s0 = Inr (d, a)" "cycle cfg s0 = Inr s1"
    and w1: "duty_writes (trace (hw s1)) =
       duty_writes (trace (hw s0)) + (if d \<noteq> prev_duty s0 then 1 else 0)"
    and p1: "prev_duty s1 = (if d \<noteq> prev_duty s0 then d else prev_duty s0)"
    using cycle_effect [OF ok] by blast
  obtain a' where "cycle_compute cfg s0 = Inr (temp_to_duty (windowedMax a'), a')"
    using cycle_compute_total [OF ok] by blast
  then have d: "d = temp_to_duty (windowedMax a)" using c(1) by simp
  have ne: "temp_to_duty t \<noteq> - 1" for t using temp_to_duty_range [of t] by simp
  have dp: "d \<noteq> prev_duty s0" unfolding d p0 by (rule ne)
  have "main_loop cfg (Suc 0) s0 = Inr s1" by (simp add: c)
  then have m: "main_loop cfg 1 s0 = Inr s1" by (simp only: One_nat_def)
  have w: "duty_writes (trace (hw s1)) = duty_writes (trace w) + 1"
    using w1 dp h0 by simp
  have p: "prev_duty s1 = d" using p1 dp by simp
  have all: "\<forall>t. temp_to_duty t \<noteq> prev_duty s0" using ne p0 by simp
  show ?thesis using i p0 all c m w p by blast
qed

theorem first_cycle_writes_witness:
  "0 < TEMP_HISTORY_LEN default_config \<and>
   (\<exists>s0 s1. main_init default_config True True \<lparr>port_in = (\<lambda>k. 1), n_in = 0, trace = []\<rparr> = Inr s0 \<and>
      main_loop default_config 1 s0 = Inr s1 \<and> duty_writes (trace (hw s1)) = 1)"
proof -
  have n: "0 < TEMP_HISTORY_LEN default_config"
    by (simp add: TEMP_HISTORY_LEN_def default_config_def)
  from first_cycle_writes [OF n, of "\<lparr>port_in = (\<lambda>k. 1), n_in = 0, trace = []\<rparr>"] n
  show ?thesis by (auto simp: duty_writes_simps)
qed

text \<open>
  Claim C4. If the awaited status flag does not take the awaited value at any of the 101
  reads of a wait, the wait reads the status port once, then makes exactly 100 further
  attempts, each a sleep of 1 ms followed by a read, prints the warning with the byte
  read last, and returns. A register read whose output-buffer-full flag stays clear
  during its last wait therefore completes: it goes on to read the data port and returns
  that byte, whatever it is. The pass of the control loop completes on any hardware: it
  stores the sample, computes the duty, leaves it in \<^verbatim>\<open>prev_duty\<close> and sleeps.
\<close>

theorem handshake_timeout:
  "((\<forall>k\<le>100. flag_bit (port_in w (n_in w + k)) flag \<noteq> sint val) \<longrightarrow>
      ec_io_wait port flag val w =
        w\<lparr>n_in := n_in w + 101, trace := trace w @ timed_out_wait port flag val w\<rparr>) \<and>
   filter (\<lambda>e. e = Usleep 1000) (timed_out_wait port flag val w) =
     replicate 100 (Usleep 1000) \<and>
   filter (\<lambda>e. e \<noteq> Usleep 1000) (timed_out_wait port flag val w) =
     map (\<lambda>k. Inb (ucast port) (port_in w (n_in w + k))) [0..<101]
       @ [Print_wait_ec_error port (port_in w (n_in w + 100)) flag val] \<and>
   (let w4 = outb (ucast reg) (ucast EC_DATA) (ec_io_wait EC_SC IBF 0
               (outb (ucast EC_SC_READ_CMD) (ucast EC_SC) (ec_io_wait EC_SC IBF 0 v)))
    in (\<forall>k\<le>100. flag_bit (port_in w4 (n_in w4 + k)) OBF \<noteq> sint (1 :: 8 word)) \<longrightarrow>
         ec_io_read reg v =
           inb (ucast EC_DATA)
             (w4\<lparr>n_in := n_in w4 + 101, trace := trace w4 @ timed_out_wait EC_SC OBF 1 w4\<rparr>) \<and>
         fst (ec_io_read reg v) = port_in v (n_in w4 + 101) \<and>
         n_in (snd (ec_io_read reg v)) = n_in w4 + 102) \<and>
   (state_ok cfg s \<longrightarrow>
      (\<exists>d a s1. cycle_compute cfg s = Inr (d, a) \<and> cycle cfg s = Inr s1 \<and>
         temp_history s1 =
           (temp_history s)[temp_history_pos s := fst (sample_temp cfg (hw s))] \<and>
         temp_history_pos s1 = (temp_history_pos s + 1) mod TEMP_HISTORY_LEN cfg \<and>
         d = temp_to_duty (windowedMax s1) \<and> prev_duty s1 = d \<and>
         last (trace (hw s1)) = Usleep (1000 * 1000 div RATE cfg)))"
proof (intro conjI impI)
  assume "\<forall>k\<le>100. flag_bit (port_in w (n_in w + k)) flag \<noteq> sint val"
  then show "ec_io_wait port flag val w =
       w\<lparr>n_in := n_in w + 101, trace := trace w @ timed_out_wait port flag val w\<rparr>"
    by (rule ec_io_wait_timeout)
next
  show "filter (\<lambda>e. e = Usleep 1000) (timed_out_wait port flag val w) =
       replicate 100 (Usleep 1000)"
    by (rule timed_out_wait_counts)
next
  show "filter (\<lambda>e. e \<noteq> Usleep 1000) (timed_out_wait port flag val w) =
       map (\<lambda>k. Inb (ucast port) (port_in w (n_in w + k))) [0..<101]
         @ [Print_wait_ec_error port (port_in w (n_in w + 100)) flag val]"
    by (rule timed_out_wait_counts)
next
  define w4 where "w4 = outb (ucast reg) (ucast EC_DATA) (ec_io_wait EC_SC IBF 0
                    (outb (ucast EC_SC_READ_CMD) (ucast EC_SC) (ec_io_wait EC_SC IBF 0 v)))"
  have pi: "port_in w4 = port_in v"
    by (simp add: w4_def outb_frame ec_io_wait_frame)
  have "(\<forall>k\<le>100. flag_bit (port_in w4 (n_in w4 + k)) OBF \<noteq> sint (1 :: 8 word)) \<longrightarrow>
         ec_io_read reg v =
           inb (ucast EC_DATA)
             (w4\<lparr>n_in := n_in w4 + 101, trace := trace w4 @ timed_out_wait EC_SC OBF 1 w4\<rparr>) \<and>
         fst (ec_io_read reg v) = port_in v (n_in w4 + 101) \<and>
         n_in (snd (ec_io_read reg v)) = n_in w4 + 102"
  proof
    assume "\<forall>k\<le>100. flag_bit (port_in w4 (n_in w4 + k)) OBF \<noteq> sint (1 :: 8 word)"
    then have "ec_io_wait EC_SC OBF 1 w4 =
        w4\<lparr>n_in := n_in w4 + 101, trace := trace w4 @ timed_out_wait EC_SC OBF 1 w4\<rparr>"
      by (rule ec_io_wait_timeout)
    then have r: "ec_io_read reg v =
        inb (ucast EC_DATA)
          (w4\<lparr>n_in := n_in w4 + 101, trace := trace w4 @ timed_out_wait EC_SC OBF 1 w4\<rparr>)"
      by (simp add: ec_io_read_def Let_def w4_def)
    show "ec_io_read reg v =
           inb (ucast EC_DATA)
             (w4\<lparr>n_in := n_in w4 + 101, trace := trace w4 @ timed_out_wait EC_SC OBF 1 w4\<rparr>) \<and>
         fst (ec_io_read reg v) = port_in v (n_in w4 + 101) \<and>
         n_in (snd (ec_io_read reg v)) = n_in w4 + 102"
      unfolding r by (simp add: inb_frame pi)
  qed
  then show "let w4 = outb (ucast reg) (ucast EC_DATA) (ec_io_wait EC_SC IBF 0
               (outb (ucast EC_SC_READ_CMD) (ucast EC_SC) (ec_io_wait EC_SC IBF 0 v)))
    in (\<forall>k\<le>100. flag_bit (port_in w4 (n_in w4 + k)) OBF \<noteq> sint (1 :: 8 word)) \<longrightarrow>
         ec_io_read reg v =
           inb (ucast EC_DATA)
             (w4\<lparr>n_in := n_in w4 + 101, trace := trace w4 @ timed_out_wait EC_SC OBF 1 w4\<rparr>) \<and>
         fst (ec_io_read reg v) = port_in v (n_in w4 + 101) \<and>
         n_in (snd (ec_io_read reg v)) = n_in w4 + 102"
    unfolding Let_def w4_def .
next
  assume ok: "state_ok cfg s"
  obtain d a s1 where c: "cycle_compute cfg s = Inr (d, a)" "cycle cfg s = Inr s1"
    and d: "d = temp_to_duty (windowedMax a)"
    and h: "temp_history a = (temp_history s)[temp_history_pos s := fst (sample_temp cfg (hw s))]"
      "temp_history s1 = temp_history a"
      "temp_history_pos s1 = (temp_history_pos s + 1) mod TEMP_HISTORY_LEN cfg"
    and p: "prev_duty s1 = (if d \<noteq> prev_duty s then d else prev_duty s)"
    and l: "last (trace (hw s1)) = Usleep (1000 * 1000 div RATE cfg)"
    using cycle_detail [OF ok] by blast
  have "windowedMax s1 = windowedMax a" by (simp add: windowedMax_def h)
  then have "d = temp_to_duty (windowedMax s1)" using d by simp
  moreover have "prev_duty s1 = d" using p by simp
  moreover have "temp_history s1 =
      (temp_history s)[temp_history_pos s := fst (sample_temp cfg (hw s))]"
    using h by simp
  ultimately show "\<exists>d a s1. cycle_compute cfg s = Inr (d, a) \<and> cycle cfg s = Inr s1 \<and>
         temp_history s1 =
           (temp_history s)[temp_history_pos s := fst (sample_temp cfg (hw s))] \<and>
         temp_history_pos s1 = (temp_history_pos s + 1) mod TEMP_HISTORY_LEN cfg \<and>
         d = temp_to_duty (windowedMax s1) \<and> prev_duty s1 = d \<and>
         last (trace (hw s1)) = Usleep (1000 * 1000 div RATE cfg)"
    using c h l by blast
qed

theorem handshake_timeout_witness:
  "list_all (\<lambda>k. flag_bit (port_in stuck_hw (n_in stuck_hw + k)) OBF \<noteq> sint (1 :: 8 word))
     [0..<101] \<and>
   n_in (ec_io_wait EC_SC OBF 1 stuck_hw) = 101 \<and>
   filter (\<lambda>e. e = Usleep 1000) (trace (ec_io_wait EC_SC OBF 1 stuck_hw)) =
     replicate 100 (Usleep 1000) \<and>
   last (trace (ec_io_wait EC_SC OBF 1 stuck_hw)) = Print_wait_ec_error 0x66 0 0 1 \<and>
   fst (ec_io_read EC_REG_CPU_TEMP stuck_hw) = 55 \<and>
   n_in (snd (ec_io_read EC_REG_CPU_TEMP stuck_hw)) = 104"
proof -
  have z: "port_in stuck_hw k = 0" if "k \<le> 102" for k
    using that by (simp add: stuck_hw_def)
  have n0: "n_in stuck_hw = 0" and t0: "trace stuck_hw = []" by (simp_all add: stuck_hw_def)
  have f0: "flag_bit 0 OBF \<noteq> 1" "flag_bit 0 IBF = 0"
    by (simp_all add: flag_bit_def OBF_def IBF_def)
  have h: "\<forall>k\<le>100. flag_bit (port_in stuck_hw (n_in stuck_hw + k)) OBF \<noteq> sint (1 :: 8 word)"
    by (simp add: n0 z f0)
  note t = handshake_timeout [of stuck_hw OBF 1 EC_SC EC_REG_CPU_TEMP stuck_hw]
  have e: "ec_io_wait EC_SC OBF 1 stuck_hw =
      stuck_hw\<lparr>n_in := n_in stuck_hw + 101,
        trace := trace stuck_hw @ timed_out_wait EC_SC OBF 1 stuck_hw\<rparr>"
    using t h by blast
  have f: "filter (\<lambda>e. e = Usleep 1000) (timed_out_wait EC_SC OBF 1 stuck_hw) =
      replicate 100 (Usleep 1000)"
    using t by blast
  define w1 where "w1 = ec_io_wait EC_SC IBF 0 stuck_hw"
  define w2 where "w2 = outb (ucast EC_SC_READ_CMD) (ucast EC_SC) w1"
  define w3 where "w3 = ec_io_wait EC_SC IBF 0 w2"
  define w4 where "w4 = outb (ucast EC_REG_CPU_TEMP) (ucast EC_DATA) w3"
  have "flag_bit (port_in stuck_hw (n_in stuck_hw)) IBF = sint (0 :: 8 word)"
    by (simp add: n0 z f0)
  then have n1: "n_in w1 = 1" unfolding w1_def by (simp add: ec_io_wait_ready n0)
  have p1: "port_in w1 = port_in stuck_hw" by (simp add: w1_def ec_io_wait_frame)
  have n2: "n_in w2 = 1" and p2: "port_in w2 = port_in stuck_hw"
    by (simp_all add: w2_def outb_frame n1 p1)
  have "flag_bit (port_in w2 (n_in w2)) IBF = sint (0 :: 8 word)"
    by (simp add: n2 p2 z f0)
  then have n3: "n_in w3 = 2" unfolding w3_def by (simp add: ec_io_wait_ready n2)
  have p3: "port_in w3 = port_in stuck_hw" by (simp add: w3_def ec_io_wait_frame p2)
  have n4: "n_in w4 = 2" and p4: "port_in w4 = port_in stuck_hw"
    by (simp_all add: w4_def outb_frame n3 p3)
  have h4: "\<forall>k\<le>100. flag_bit (port_in w4 (n_in w4 + k)) OBF \<noteq> sint (1 :: 8 word)"
    by (simp add: n4 p4 z f0)
  have "fst (ec_io_read EC_REG_CPU_TEMP stuck_hw) = port_in stuck_hw (n_in w4 + 101) \<and>
      n_in (snd (ec_io_read EC_REG_CPU_TEMP stuck_hw)) = n_in w4 + 102"
    using t h4 unfolding Let_def w4_def w3_def w2_def w1_def by blast
  then have rd: "fst (ec_io_read EC_REG_CPU_TEMP stuck_hw) = 55"
      "n_in (snd (ec_io_read EC_REG_CPU_TEMP stuck_hw)) = 104"
    by (simp_all add: n4 stuck_hw_def)
  have "list_all (\<lambda>k. flag_bit (port_in stuck_hw (n_in stuck_hw + k)) OBF \<noteq> sint (1 :: 8 word))
     [0..<101]"
    using h by (simp add: list_all_iff)
  moreover have "n_in (ec_io_wait EC_SC OBF 1 stuck_hw) = 101"
    unfolding e by (simp add: n0)
  moreover have "filter (\<lambda>e. e = Usleep 1000) (trace (ec_io_wait EC_SC OBF 1 stuck_hw)) =
      replicate 100 (Usleep 1000)"
    unfolding e using f by (simp add: t0)
  moreover have "last (trace (ec_io_wait EC_SC OBF 1 stuck_hw)) = Print_wait_ec_error 0x66 0 0 1"
    unfolding e by (simp add: timed_out_wait_def) (simp add: n0 z EC_SC_def OBF_def)
  ultimately show ?thesis using rd by blast
qed

section \<open>The duty write clamps\<close>

lemma duty_raw_10: "duty_raw 10 = 25"
  by code_simp

lemma duty_raw_100: "duty_raw 100 = 255"
  by code_simp

lemma sanitize_cases:
  "sanitize d = (if d < 10 then 10 else if 100 < d then 100 else d)"
  by (simp add: sanitize_def Let_def)

text \<open>
  Claim C5. For every requested duty percentage the duty write clamps the value to the
  range from 10 to 100 before it converts it for transmission: a request below 10, such
  as 3, transmits the byte 25 that stands for 10 percent, and a request above 100, such
  as 150, transmits the byte 255 that stands for 100 percent. The bytes sent are the
  command \<open>0x99\<close> on the command port, then the address \<open>0x01\<close> and the converted duty
  on the data port.
\<close>

theorem clamp_on_write:
  "ec_write_fan_duty d w = ec_io_do 0x99 0x01 (word_of_int (duty_raw (sanitize d))) w \<and>
   outbs (trace (ec_write_fan_duty d w)) =
     outbs (trace w) @
       [Outb 0x99 0x66, Outb 0x01 0x62, Outb (word_of_int (duty_raw (sanitize d))) 0x62] \<and>
   10 \<le> sanitize d \<and> sanitize d \<le> 100 \<and>
   (10 \<le> d \<and> d \<le> 100 \<longrightarrow> sanitize d = d) \<and>
   (d < 10 \<longrightarrow> sanitize d = 10 \<and> ec_write_fan_duty d w = ec_write_fan_duty 10 w) \<and>
   (100 < d \<longrightarrow> sanitize d = 100 \<and> ec_write_fan_duty d w = ec_write_fan_duty 100 w) \<and>
   duty_raw 10 = 25 \<and> duty_raw 100 = 255 \<and>
   outbs (trace (ec_write_fan_duty 3 w)) =
     outbs (trace w) @ [Outb 0x99 0x66, Outb 0x01 0x62, Outb 25 0x62] \<and>
   outbs (trace (ec_write_fan_duty 150 w)) =
     outbs (trace w) @ [Outb 0x99 0x66, Outb 0x01 0x62, Outb 255 0x62]"
proof -
  have e: "ec_write_fan_duty x w = ec_io_do 0x99 0x01 (word_of_int (duty_raw (sanitize x))) w"
    for x by (simp add: ec_write_fan_duty_def Let_def)
  have o: "outbs (trace (ec_write_fan_duty x w)) =
     outbs (trace w) @
       [Outb 0x99 0x66, Outb 0x01 0x62, Outb (word_of_int (duty_raw (sanitize x))) 0x62]"
    for x unfolding e by (simp add: ec_io_do_outbs)
  have s3: "sanitize 3 = 10" and s150: "sanitize 150 = 100"
    by (simp_all add: sanitize_cases)
  show ?thesis
    using e [of d] o [of d] o [of 3] o [of 150]
    by (simp add: s3 s150 duty_raw_10 duty_raw_100 e sanitize_cases)
qed

theorem clamp_on_write_witness:
  "(3::int) < 10 \<and> (100::int) < 150 \<and> (10::int) \<le> 55 \<and> (55::int) \<le> 100 \<and>
   sanitize 3 = 10 \<and> sanitize 150 = 100 \<and> sanitize 55 = 55 \<and>
   outbs (trace (ec_write_fan_duty 3 \<lparr>port_in = (\<lambda>k. 0), n_in = 0, trace = []\<rparr>)) =
     [Outb 0x99 0x66, Outb 0x01 0x62, Outb 25 0x62] \<and>
   outbs (trace (ec_write_fan_duty 150 \<lparr>port_in = (\<lambda>k. 0), n_in = 0, trace = []\<rparr>)) =
     [Outb 0x99 0x66, Outb 0x01 0x62, Outb 255 0x62]"
  using clamp_on_write [of 3 "\<lparr>port_in = (\<lambda>k. 0), n_in = 0, trace = []\<rparr>"]
    clamp_on_write [of 150 "\<lparr>port_in = (\<lambda>k. 0), n_in = 0, trace = []\<rparr>"]
    clamp_on_write [of 55 "\<lparr>port_in = (\<lambda>k. 0), n_in = 0, trace = []\<rparr>"]
  by (simp add: outbs_simps)

text \<open>
  Claim C9. For every integer temperature, negative ones and ones above 255 included,
  \<^verbatim>\<open>temp_to_duty\<close> returns an integer from 10 to 100. The clamp of the duty write
  therefore never changes a duty computed by the loop, and a computed duty never equals
  \<open>- 1\<close>, the initial value of \<^verbatim>\<open>prev_duty\<close>.
\<close>

theorem computed_duty_in_range:
  "10 \<le> temp_to_duty temp \<and> temp_to_duty temp \<le> 100 \<and>
   sanitize (temp_to_duty temp) = temp_to_duty temp \<and>
   ec_write_fan_duty (temp_to_duty temp) w =
     ec_io_do 0x99 0x01 (word_of_int (duty_raw (temp_to_duty temp))) w \<and>
   temp_to_duty temp \<noteq> - 1"
  using temp_to_duty_range [of temp]
  by (simp add: ec_write_fan_duty_def Let_def sanitize_cases)

theorem computed_duty_in_range_witness:
  "10 \<le> temp_to_duty (- 40) \<and> temp_to_duty 1000 \<le> 100 \<and>
   sanitize (temp_to_duty 55) = temp_to_duty 55 \<and> temp_to_duty 55 \<noteq> - 1"
  using computed_duty_in_range [of "- 40"] computed_duty_in_range [of 1000]
    computed_duty_in_range [of 55]
  by simp

section \<open>The fan speed query\<close>

text \<open>
  Claim C10. The fan speed computation is guarded against division by zero: for every
  pair of high and low register bytes, when the combined 16-bit raw value is zero the
  result is 0 and no division takes place, and otherwise the result is 2156220 divided
  by the raw value. The query never fails.
\<close>

theorem fan_rpms_guarded:
  fixes hi lo :: "8 word"
  shows "fan_rpms (uint hi) (uint lo) =
       Inr (if 256 * uint hi + uint lo = 0 then 0 else 2156220 div (256 * uint hi + uint lo)) \<and>
     fan_rpms (uint hi) (uint lo) \<noteq> Inl DivisionByZero \<and>
     ec_query_fan_rpms w =
       (let (h, w1) = ec_io_read EC_REG_FAN_RPMS_HI w;
            (l, w2) = ec_io_read EC_REG_FAN_RPMS_LO w1
        in Inr (if 256 * uint h + uint l = 0 then 0 else 2156220 div (256 * uint h + uint l), w2))"
proof -
  have r: "fan_rpms (uint a) (uint b) =
       Inr (if 256 * uint a + uint b = 0 then 0 else 2156220 div (256 * uint a + uint b))"
    for a b :: "8 word"
  proof -
    have "0 \<le> 256 * uint a + uint b" by simp
    then have "0 < 256 * uint a + uint b \<longleftrightarrow> 256 * uint a + uint b \<noteq> 0" by linarith
    then show ?thesis by (simp add: fan_rpms_total push_bit_eq_mult mult.commute)
  qed
  show ?thesis
    by (simp add: r ec_query_fan_rpms_def case_prod_beta Let_def)
qed

theorem fan_rpms_guarded_witness:
  "fan_rpms (uint (0 :: 8 word)) (uint (0 :: 8 word)) = Inr 0 \<and>
   fan_rpms (uint (1 :: 8 word)) (uint (0 :: 8 word)) = Inr 8422"
  using fan_rpms_guarded [of 0 0] fan_rpms_guarded [of 1 0]
  by simp

section \<open>The history window\<close>

lemma max_int_zero:
  assumes "0 \<le> a"
  shows "max_int a 0 = a"
  using assms by (simp add: max_int_def)

lemma foldl_max_int_zeros:
  assumes "0 \<le> a"
  shows "foldl max_int a (replicate n 0) = a"
  using assms by (induction n) (simp_all add: max_int_zero)

lemma spike_max:
  assumes "p < n" and "0 < v"
  shows "foldl max_int 0 ((replicate n 0)[p := v]) = v"
proof -
  have "(replicate n 0)[p := v] = replicate p 0 @ v # replicate (n - Suc p) (0::int)"
    using assms(1) by (simp add: upd_conv_take_nth_drop min_def)
  then show ?thesis using assms(2) by (simp add: foldl_max_int_zeros max_int_def)
qed

lemma spike_keeps:
  assumes "q \<noteq> p" and "q < n"
  shows "(replicate n (0::int))[p := v, q := 0] = (replicate n 0)[p := v]"
proof -
  have "((replicate n (0::int))[p := v]) ! q = 0" using assms by simp
  then show ?thesis by (metis list_update_id)
qed

lemma spike_out:
  "(replicate n (0::int))[p := v, p := 0] = replicate n 0"
proof (cases "p < n")
  case True
  then show ?thesis by (simp add: list_update_same_conv)
next
  case False
  then show ?thesis by (simp add: list_update_beyond)
qed

lemma cursor_away:
  assumes "p < n" and "Suc k < n"
  shows "(p + 1 + k) mod n \<noteq> p"
proof
  assume e: "(p + 1 + k) mod n = p"
  have "(p + 1 + k) mod n = (p + Suc k) mod n" by simp
  also have "\<dots> = (if p + Suc k < n then p + Suc k else p + Suc k - n)"
    using assms by (simp add: mod_if)
  finally show False using e assms by (auto split: if_splits)
qed

lemma cursor_back:
  assumes "p < Suc m"
  shows "(p + 1 + m) mod Suc m = p"
proof -
  have "p + 1 + m = p + Suc m" by simp
  then show ?thesis using assms by (simp only: mod_add_self2 mod_less)
qed

lemma pushes_keep_spike:
  assumes "temp_history s = replicate (TEMP_HISTORY_LEN cfg) 0"
    and "temp_history_pos s < TEMP_HISTORY_LEN cfg"
    and "k < TEMP_HISTORY_LEN cfg"
  shows "temp_history ((push cfg 0 ^^ k) (push cfg v s)) =
       (replicate (TEMP_HISTORY_LEN cfg) 0)[temp_history_pos s := v] \<and>
     temp_history_pos ((push cfg 0 ^^ k) (push cfg v s)) =
       (temp_history_pos s + 1 + k) mod TEMP_HISTORY_LEN cfg"
  using assms(3)
proof (induction k)
  case 0
  then show ?case using assms(1) by (simp add: push_fields)
next
  case (Suc k)
  then have ih: "temp_history ((push cfg 0 ^^ k) (push cfg v s)) =
       (replicate (TEMP_HISTORY_LEN cfg) 0)[temp_history_pos s := v]"
    "temp_history_pos ((push cfg 0 ^^ k) (push cfg v s)) =
       (temp_history_pos s + 1 + k) mod TEMP_HISTORY_LEN cfg"
    by simp_all
  have ne: "(temp_history_pos s + 1 + k) mod TEMP_HISTORY_LEN cfg \<noteq> temp_history_pos s"
    using assms(2) Suc.prems by (rule cursor_away)
  have lt: "(temp_history_pos s + 1 + k) mod TEMP_HISTORY_LEN cfg < TEMP_HISTORY_LEN cfg"
    using assms(2) by simp
  have upd: "(replicate (TEMP_HISTORY_LEN cfg) 0)
      [temp_history_pos s := v, (temp_history_pos s + 1 + k) mod TEMP_HISTORY_LEN cfg := 0] =
      (replicate (TEMP_HISTORY_LEN cfg) 0)[temp_history_pos s := v]"
    using ne lt by (rule spike_keeps)
  have "temp_history (push cfg 0 ((push cfg 0 ^^ k) (push cfg v s))) =
      (replicate (TEMP_HISTORY_LEN cfg) 0)[temp_history_pos s := v]"
    by (simp only: push_fields ih upd)
  moreover have "temp_history_pos (push cfg 0 ((push cfg 0 ^^ k) (push cfg v s))) =
      (temp_history_pos s + 1 + Suc k) mod TEMP_HISTORY_LEN cfg"
    by (simp only: push_fields ih) (simp add: mod_simps)
  ultimately show ?case by simp
qed

lemma pushes_drop_spike:
  assumes "temp_history s = replicate (TEMP_HISTORY_LEN cfg) 0"
    and "temp_history_pos s < TEMP_HISTORY_LEN cfg"
  shows "temp_history ((push cfg 0 ^^ TEMP_HISTORY_LEN cfg) (push cfg v s)) =
       replicate (TEMP_HISTORY_LEN cfg) 0"
proof -
  obtain m where n: "TEMP_HISTORY_LEN cfg = Suc m"
    using assms(2) by (cases "TEMP_HISTORY_LEN cfg") simp_all
  have "m < TEMP_HISTORY_LEN cfg" by (simp add: n)
  from pushes_keep_spike [OF assms this, of v]
  have k: "temp_history ((push cfg 0 ^^ m) (push cfg v s)) =
       (replicate (Suc m) 0)[temp_history_pos s := v]"
    "temp_history_pos ((push cfg 0 ^^ m) (push cfg v s)) = (temp_history_pos s + 1 + m) mod Suc m"
    by (simp_all only: n)
  have wrap: "(temp_history_pos s + 1 + m) mod Suc m = temp_history_pos s"
    using assms(2) unfolding n by (rule cursor_back)
  have "temp_history (push cfg 0 ((push cfg 0 ^^ m) (push cfg v s))) = replicate (Suc m) 0"
    by (simp only: push_fields k wrap spike_out)
  then show ?thesis by (simp add: n)
qed

text \<open>
  Claim C7. Start from an all-zero history window of capacity \<open>N\<close>, push one positive
  spike and then \<open>N\<close> zero samples. The maximum over the window is the spike after the
  spike's own push and after each of the first \<open>N - 1\<close> zero pushes, and it is 0 after the
  \<open>N\<close>-th zero push, which overwrites the spike's slot, and not before.
\<close>

theorem history_window_aging:
  assumes "temp_history s = replicate (TEMP_HISTORY_LEN cfg) 0"
    and "temp_history_pos s < TEMP_HISTORY_LEN cfg"
    and "0 < v"
  shows "windowedMax s = 0 \<and>
     (\<forall>k < TEMP_HISTORY_LEN cfg. windowedMax ((push cfg 0 ^^ k) (push cfg v s)) = v) \<and>
     windowedMax ((push cfg 0 ^^ TEMP_HISTORY_LEN cfg) (push cfg v s)) = 0"
proof (intro conjI allI impI)
  show "windowedMax s = 0"
    by (simp add: windowedMax_def assms(1) foldl_max_int_zeros)
next
  fix k
  assume "k < TEMP_HISTORY_LEN cfg"
  then show "windowedMax ((push cfg 0 ^^ k) (push cfg v s)) = v"
    using pushes_keep_spike [OF assms(1,2), of k v] spike_max [OF assms(2,3)]
    by (simp add: windowedMax_def)
next
  show "windowedMax ((push cfg 0 ^^ TEMP_HISTORY_LEN cfg) (push cfg v s)) = 0"
    by (simp add: windowedMax_def pushes_drop_spike [OF assms(1,2)] foldl_max_int_zeros)
qed

theorem history_window_aging_witness:
  "temp_history \<lparr>temp_history = replicate 25 0, temp_history_pos = 3, prev_duty = - 1,
       hw = \<lparr>port_in = (\<lambda>k. 0), n_in = 0, trace = []\<rparr>\<rparr> = replicate (TEMP_HISTORY_LEN default_config) 0 \<and>
   (3::nat) < TEMP_HISTORY_LEN default_config \<and> (0::int) < 90 \<and>
   windowedMax ((push default_config 0 ^^ 24) (push default_config 90
     \<lparr>temp_history = replicate 25 0, temp_history_pos = 3, prev_duty = - 1,
       hw = \<lparr>port_in = (\<lambda>k. 0), n_in = 0, trace = []\<rparr>\<rparr>)) = 90 \<and>
   windowedMax ((push default_config 0 ^^ 25) (push default_config 90
     \<lparr>temp_history = replicate 25 0, temp_history_pos = 3, prev_duty = - 1,
       hw = \<lparr>port_in = (\<lambda>k. 0), n_in = 0, trace = []\<rparr>\<rparr>)) = 0"
proof -
  have n: "TEMP_HISTORY_LEN default_config = 25"
    by (simp add: TEMP_HISTORY_LEN_def default_config_def)
  show ?thesis
    using history_window_aging [of "\<lparr>temp_history = replicate 25 0, temp_history_pos = 3,
      prev_duty = - 1, hw = \<lparr>port_in = (\<lambda>k. 0), n_in = 0, trace = []\<rparr>\<rparr>" default_config 90]
    by (simp add: n)
qed

end
